theory Spec2Isabelle
  imports
    Main
    "HOL-Library.Char_ord"
    "HOL-Library.List_Lexorder"
    "HOL-Library.Product_Lexorder"
    "HOL-Library.Multiset"
begin

section \<open>The store: the four tables created by server.js\<close>

text \<open>
  A table is the list of its rows in rowid order; a new row goes to the end. Timestamps
  (\<^verbatim>\<open>CURRENT_TIMESTAMP\<close>, a text of fixed format whose string order is the order of
  time) are seconds as an \<open>int\<close>. Text columns are compared bytewise, as the BINARY
  collation of SQLite does; that is the lexicographic order on \<open>string\<close>. Columns that
  the handlers may fill from an unset socket field, and \<^verbatim>\<open>ended_at\<close>, are nullable.
  An \<^verbatim>\<open>ORDER BY\<close> is a stable sort of the rows in table order; SQL leaves the order
  of rows with equal keys open, and no property below depends on it.
\<close>

type_synonym timestamp = int

record room_row =
  r_id :: string
  r_code :: string
  r_created_at :: timestamp

record user_row =
  u_id :: string
  u_room_code :: string
  u_username :: string
  u_socket_id :: string
  u_joined_at :: timestamp
  u_is_online :: int
  u_last_seen :: timestamp

record message_row =
  m_id :: int
  m_room_code :: string
  m_user_id :: string
  m_username :: "string option"
  m_message :: string
  m_message_type :: string
  m_created_at :: timestamp

record call_row =
  c_id :: int
  c_room_code :: string
  c_call_type :: string
  c_initiator_id :: "string option"
  c_initiator_name :: "string option"
  c_status :: string
  c_started_at :: timestamp
  c_ended_at :: "timestamp option"

text \<open>
  \<open>messages_seq\<close> and \<open>calls_seq\<close> are the AUTOINCREMENT counters of the two tables
  with an integer key: the largest key ever handed out.
\<close>

record store =
  rooms :: "room_row list"
  users :: "user_row list"
  messages :: "message_row list"
  calls :: "call_row list"
  messages_seq :: int
  calls_seq :: int

text \<open>
  The fourteen SQL statements of server.js, in the order of the source. A statement
  can fail for a reason outside the program (the callback gets \<^verbatim>\<open>err\<close>, the promise of
  \<^verbatim>\<open>dbGet\<close>/\<^verbatim>\<open>dbAll\<close>/\<^verbatim>\<open>dbRun\<close> rejects); which statements do so during one
  handler run is an argument of the handler.
\<close>

datatype stmt =
  SelRoom | InsRoom | SelUser | UpdUserOnline | InsUser
| SelUsers | SelMessages | SelCalls
| InsMessage | UpdCallsEnded | InsCall
| UpdUsersOffline | CountOnline | DelUsers

datatype db_error = SQLITE_CONSTRAINT | SQLITE_FAILURE

type_synonym faults = "stmt \<Rightarrow> bool"

text \<open>\<^verbatim>\<open>SELECT * FROM rooms WHERE code = ?\<close> through \<^verbatim>\<open>db.get\<close>: the first row or none.\<close>

definition select_room :: "faults \<Rightarrow> store \<Rightarrow> string \<Rightarrow> db_error + room_row option" where
  "select_room flt db code =
     (if flt SelRoom then Inl SQLITE_FAILURE
      else Inr (find (\<lambda>r. r_code r = code) (rooms db)))"

text \<open>
  \<^verbatim>\<open>INSERT INTO rooms (id, code) VALUES (?, ?)\<close>: \<^verbatim>\<open>id\<close> is the primary key and
  \<^verbatim>\<open>code\<close> is UNIQUE, so a row with either value already there makes the insert fail.
\<close>

definition insert_room :: "faults \<Rightarrow> store \<Rightarrow> string \<Rightarrow> string \<Rightarrow> timestamp \<Rightarrow> db_error + store" where
  "insert_room flt db rid code now =
     (if flt InsRoom then Inl SQLITE_FAILURE
      else if rid \<in> set (map r_id (rooms db)) \<or> code \<in> set (map r_code (rooms db))
        then Inl SQLITE_CONSTRAINT
      else Inr (db\<lparr>rooms := rooms db @ [\<lparr>r_id = rid, r_code = code, r_created_at = now\<rparr>]\<rparr>))"

text \<open>\<^verbatim>\<open>SELECT * FROM users WHERE room_code = ? AND username = ?\<close> through \<^verbatim>\<open>db.get\<close>.\<close>

definition select_user :: "faults \<Rightarrow> store \<Rightarrow> string \<Rightarrow> string \<Rightarrow> db_error + user_row option" where
  "select_user flt db code name =
     (if flt SelUser then Inl SQLITE_FAILURE
      else Inr (find (\<lambda>u. u_room_code u = code \<and> u_username u = name) (users db)))"

text \<open>
  \<^verbatim>\<open>UPDATE users SET socket_id = ?, is_online = 1, last_seen = CURRENT_TIMESTAMP WHERE id = ?\<close>
\<close>

definition update_user_online :: "faults \<Rightarrow> store \<Rightarrow> string \<Rightarrow> string \<Rightarrow> timestamp \<Rightarrow> db_error + store" where
  "update_user_online flt db sid uid now =
     (if flt UpdUserOnline then Inl SQLITE_FAILURE
      else Inr (db\<lparr>users :=
        map (\<lambda>u. if u_id u = uid
                  then u\<lparr>u_socket_id := sid, u_is_online := 1, u_last_seen := now\<rparr>
                  else u) (users db)\<rparr>))"

text \<open>
  \<^verbatim>\<open>INSERT INTO users (id, room_code, username, socket_id) VALUES (?, ?, ?, ?)\<close>: the
  other columns take their defaults. \<^verbatim>\<open>id\<close> is the primary key; the table has no
  other uniqueness constraint.
\<close>

definition insert_user :: "faults \<Rightarrow> store \<Rightarrow> string \<Rightarrow> string \<Rightarrow> string \<Rightarrow> string \<Rightarrow> timestamp \<Rightarrow> db_error + store" where
  "insert_user flt db uid code name sid now =
     (if flt InsUser then Inl SQLITE_FAILURE
      else if uid \<in> set (map u_id (users db)) then Inl SQLITE_CONSTRAINT
      else Inr (db\<lparr>users := users db @
        [\<lparr>u_id = uid, u_room_code = code, u_username = name, u_socket_id = sid,
          u_joined_at = now, u_is_online = 1, u_last_seen = now\<rparr>]\<rparr>))"

text \<open>
  \<^verbatim>\<open>SELECT id, username, is_online, last_seen FROM users WHERE room_code = ?
  ORDER BY is_online DESC, username ASC\<close>
\<close>

definition select_room_users :: "faults \<Rightarrow> store \<Rightarrow> string \<Rightarrow> db_error + user_row list" where
  "select_room_users flt db code =
     (if flt SelUsers then Inl SQLITE_FAILURE
      else Inr (sort_key (\<lambda>u. (- u_is_online u, u_username u))
                  (filter (\<lambda>u. u_room_code u = code) (users db))))"

text \<open>
  \<^verbatim>\<open>SELECT m.*, u.username FROM messages m LEFT JOIN users u ON m.user_id = u.id
  WHERE m.room_code = ? ORDER BY m.created_at ASC\<close>. The result has two columns named
  \<^verbatim>\<open>username\<close>; the row object handed to the program is keyed by column name and
  the later column is written last, so its \<^verbatim>\<open>username\<close> is the joined one, null
  when no user row matches.
\<close>

record history_row =
  h_id :: int
  h_room_code :: string
  h_user_id :: string
  h_username :: "string option"
  h_message :: string
  h_message_type :: string
  h_created_at :: timestamp

definition joined_row :: "message_row \<Rightarrow> string option \<Rightarrow> history_row" where
  "joined_row m name =
     \<lparr>h_id = m_id m, h_room_code = m_room_code m, h_user_id = m_user_id m,
      h_username = name, h_message = m_message m, h_message_type = m_message_type m,
      h_created_at = m_created_at m\<rparr>"

definition left_join_users :: "user_row list \<Rightarrow> message_row \<Rightarrow> history_row list" where
  "left_join_users us m =
     (case filter (\<lambda>u. m_user_id m = u_id u) us of
        [] \<Rightarrow> [joined_row m None]
      | v # vs \<Rightarrow> map (\<lambda>u. joined_row m (Some (u_username u))) (v # vs))"

definition select_room_messages :: "faults \<Rightarrow> store \<Rightarrow> string \<Rightarrow> db_error + history_row list" where
  "select_room_messages flt db code =
     (if flt SelMessages then Inl SQLITE_FAILURE
      else Inr (sort_key h_created_at
                  (concat (map (left_join_users (users db))
                     (filter (\<lambda>m. m_room_code m = code) (messages db))))))"

text \<open>\<^verbatim>\<open>SELECT * FROM calls WHERE room_code = ? ORDER BY started_at DESC LIMIT 10\<close>\<close>

definition select_call_history :: "faults \<Rightarrow> store \<Rightarrow> string \<Rightarrow> db_error + call_row list" where
  "select_call_history flt db code =
     (if flt SelCalls then Inl SQLITE_FAILURE
      else Inr (take 10 (sort_key (\<lambda>c. - c_started_at c)
                  (filter (\<lambda>c. c_room_code c = code) (calls db)))))"

text \<open>
  The key of a new row of an AUTOINCREMENT table: one more than the largest key in the
  table and the largest key ever handed out.
\<close>

definition next_rowid :: "int \<Rightarrow> int list \<Rightarrow> int" where
  "next_rowid seq ids = fold max ids seq + 1"

text \<open>
  \<^verbatim>\<open>INSERT INTO messages (room_code, user_id, username, message, message_type)
  VALUES (?, ?, ?, ?, ?)\<close>; the result is the new store and \<^verbatim>\<open>this.lastID\<close>.
\<close>

definition insert_message ::
  "faults \<Rightarrow> store \<Rightarrow> string \<Rightarrow> string \<Rightarrow> string option \<Rightarrow> string \<Rightarrow> string \<Rightarrow> timestamp
     \<Rightarrow> db_error + store \<times> int" where
  "insert_message flt db code uid name body kind now =
     (if flt InsMessage then Inl SQLITE_FAILURE
      else let i = next_rowid (messages_seq db) (map m_id (messages db)) in
        Inr (db\<lparr>messages := messages db @
               [\<lparr>m_id = i, m_room_code = code, m_user_id = uid, m_username = name,
                 m_message = body, m_message_type = kind, m_created_at = now\<rparr>],
               messages_seq := i\<rparr>, i))"

text \<open>
  \<^verbatim>\<open>UPDATE calls SET status = "ended", ended_at = CURRENT_TIMESTAMP
  WHERE room_code = ? AND status = "active"\<close>
\<close>

definition update_calls_ended :: "faults \<Rightarrow> store \<Rightarrow> string \<Rightarrow> timestamp \<Rightarrow> db_error + store" where
  "update_calls_ended flt db code now =
     (if flt UpdCallsEnded then Inl SQLITE_FAILURE
      else Inr (db\<lparr>calls :=
        map (\<lambda>c. if c_room_code c = code \<and> c_status c = ''active''
                  then c\<lparr>c_status := ''ended'', c_ended_at := Some now\<rparr>
                  else c) (calls db)\<rparr>))"

text \<open>
  \<^verbatim>\<open>INSERT INTO calls (room_code, call_type, initiator_id, initiator_name)
  VALUES (?, ?, ?, ?)\<close>: \<^verbatim>\<open>status\<close> takes its default \<^verbatim>\<open>'active'\<close>.
\<close>

definition insert_call ::
  "faults \<Rightarrow> store \<Rightarrow> string \<Rightarrow> string \<Rightarrow> string option \<Rightarrow> string option \<Rightarrow> timestamp
     \<Rightarrow> db_error + store" where
  "insert_call flt db code ctype uid name now =
     (if flt InsCall then Inl SQLITE_FAILURE
      else let i = next_rowid (calls_seq db) (map c_id (calls db)) in
        Inr (db\<lparr>calls := calls db @
               [\<lparr>c_id = i, c_room_code = code, c_call_type = ctype, c_initiator_id = uid,
                 c_initiator_name = name, c_status = ''active'', c_started_at = now,
                 c_ended_at = None\<rparr>],
               calls_seq := i\<rparr>))"

text \<open>
  \<^verbatim>\<open>UPDATE users SET is_online = 0, last_seen = CURRENT_TIMESTAMP WHERE socket_id = ?\<close>
\<close>

definition update_users_offline :: "faults \<Rightarrow> store \<Rightarrow> string \<Rightarrow> timestamp \<Rightarrow> db_error + store" where
  "update_users_offline flt db sid now =
     (if flt UpdUsersOffline then Inl SQLITE_FAILURE
      else Inr (db\<lparr>users :=
        map (\<lambda>u. if u_socket_id u = sid
                  then u\<lparr>u_is_online := 0, u_last_seen := now\<rparr>
                  else u) (users db)\<rparr>))"

text \<open>\<^verbatim>\<open>SELECT COUNT(*) as count FROM users WHERE room_code = ? AND is_online = 1\<close>\<close>

definition count_online_users :: "faults \<Rightarrow> store \<Rightarrow> string \<Rightarrow> db_error + nat" where
  "count_online_users flt db code =
     (if flt CountOnline then Inl SQLITE_FAILURE
      else Inr (length (filter (\<lambda>u. u_room_code u = code \<and> u_is_online u = 1) (users db))))"

text \<open>
  \<^verbatim>\<open>DELETE FROM users WHERE is_online = 0 AND last_seen < datetime("now", "-1 hour")\<close>;
  the result is the new store and \<^verbatim>\<open>this.changes\<close>.
\<close>

definition inactive :: "timestamp \<Rightarrow> user_row \<Rightarrow> bool" where
  "inactive now u \<longleftrightarrow> u_is_online u = 0 \<and> u_last_seen u < now - 3600"

definition delete_inactive_users :: "faults \<Rightarrow> store \<Rightarrow> timestamp \<Rightarrow> db_error + store \<times> nat" where
  "delete_inactive_users flt db now =
     (if flt DelUsers then Inl SQLITE_FAILURE
      else Inr (db\<lparr>users := filter (\<lambda>u. \<not> inactive now u) (users db)\<rparr>,
                length (filter (inactive now) (users db))))"

section \<open>Connections, the call tracker and what a handler emits\<close>

text \<open>
  A connection is the \<^verbatim>\<open>socket\<close> object of the transport: its id, the three fields
  the handlers set on it (unset until a join gets that far) and the transport rooms it has
  joined. \<^verbatim>\<open>activeCalls\<close> is the map of the source; \<^verbatim>\<open>typingUsers\<close> is never
  read or written and is left out.
\<close>

record conn =
  sock_id :: string
  roomCode :: "string option"
  userId :: "string option"
  username :: "string option"
  joined :: "string list"

record call_info =
  callType :: string
  initiator :: "string option"

record state =
  db :: store
  sockets :: "conn list"
  activeCalls :: "string \<rightharpoonup> call_info"

record member =
  mem_id :: string
  mem_username :: string
  mem_isOnline :: int
  mem_lastSeen :: timestamp

record member_brief =
  mb_id :: string
  mb_username :: string
  mb_isOnline :: int

record snapshot =
  s_roomCode :: string
  s_userId :: string
  s_users :: "member list"
  s_messages :: "history_row list"
  s_callHistory :: "call_row list"

record new_message =
  nm_id :: int
  nm_user_id :: string
  nm_username :: "string option"
  nm_message :: string
  nm_message_type :: string
  nm_created_at :: timestamp

text \<open>The outbound events, with their payload fields in the order of the source.\<close>

datatype notice =
  RoomJoined snapshot
| UserJoined string string "member_brief list"
| ErrorNotice string
| NewMessage new_message
| UserTypingStart "string option" "string option"
| UserTypingStop "string option"
| Offer string "string option" "string option" string
| Answer string "string option"
| IceCandidate string "string option"
| CallEnded "string option" "string option"
| UserLeft string "string option"
| Pong

text \<open>
  \<^verbatim>\<open>socket.emit\<close> reaches the socket itself, \<^verbatim>\<open>socket.to(room).emit\<close> every socket
  that has joined the room except the sender, \<^verbatim>\<open>io.to(room).emit\<close> every socket that
  has joined the room.
\<close>

datatype audience = ToSocket string | ToOthers string string | ToAll string

datatype error = NotInRoom | DbError db_error

datatype log_line =
  UserConnected string
| UserJoinedRoom string string
| UserLeftRoom "string option" string
| CleanedUp nat
| ErrJoiningRoom db_error
| ErrSendingMessage error
| ErrLoggingCall db_error
| ErrHandlingDisconnect db_error
| ErrCleaningUp db_error

text \<open>
  \<open>UnhandledRejection\<close> stands for the rejected promise of an \<^verbatim>\<open>async\<close> handler
  whose \<^verbatim>\<open>await\<close> is outside any \<^verbatim>\<open>try\<close>.
\<close>

datatype effect = Emit audience notice | Log log_line | UnhandledRejection db_error

fun recipients :: "conn list \<Rightarrow> audience \<Rightarrow> string list" where
  "recipients socks (ToSocket sid) = [sid]"
| "recipients socks (ToOthers sid room) =
     map sock_id (filter (\<lambda>c. room \<in> set (joined c) \<and> sock_id c \<noteq> sid) socks)"
| "recipients socks (ToAll room) =
     map sock_id (filter (\<lambda>c. room \<in> set (joined c)) socks)"

text \<open>Who receives what: every notice of a handler's output with each of its recipients.\<close>

fun deliveries :: "conn list \<Rightarrow> effect list \<Rightarrow> (string \<times> notice) list" where
  "deliveries socks [] = []"
| "deliveries socks (Emit a n # outs) =
     map (\<lambda>sid. (sid, n)) (recipients socks a) @ deliveries socks outs"
| "deliveries socks (_ # outs) = deliveries socks outs"

text \<open>
  \<^verbatim>\<open>if (socket.roomCode)\<close> and \<^verbatim>\<open>socket.roomCode && socket.userId\<close>: an unset field
  and the empty string are both falsy.
\<close>

definition room_of :: "conn \<Rightarrow> string option" where
  "room_of sock =
     (case roomCode sock of None \<Rightarrow> None | Some code \<Rightarrow> if code = [] then None else Some code)"

definition presence_of :: "conn \<Rightarrow> (string \<times> string) option" where
  "presence_of sock =
     (case room_of sock of
        None \<Rightarrow> None
      | Some code \<Rightarrow>
          (case userId sock of
             None \<Rightarrow> None
           | Some uid \<Rightarrow> if uid = [] then None else Some (code, uid)))"

section \<open>The handlers\<close>

subsection \<open>join-room\<close>

text \<open>
  \<^verbatim>\<open>socket.join(roomCode); socket.roomCode = roomCode; socket.userId = userId;
  socket.username = username\<close>
\<close>

definition register_presence :: "string \<Rightarrow> string \<Rightarrow> string \<Rightarrow> string \<Rightarrow> conn list \<Rightarrow> conn list" where
  "register_presence sid code uid name socks =
     map (\<lambda>c. if sock_id c = sid
               then c\<lparr>roomCode := Some code, userId := Some uid, username := Some name,
                      joined := List.insert code (joined c)\<rparr>
               else c) socks"

text \<open>Create or update the user (lines 137 to 155); the result carries \<^verbatim>\<open>userId\<close>.\<close>

definition join_user ::
  "faults \<Rightarrow> string \<Rightarrow> string \<Rightarrow> string \<Rightarrow> string \<Rightarrow> timestamp \<Rightarrow> store \<Rightarrow> db_error + store \<times> string" where
  "join_user flt sid code name fresh_uid now d =
     (case select_user flt d code name of
        Inl e \<Rightarrow> Inl e
      | Inr (Some existingUser) \<Rightarrow>
          (case update_user_online flt d sid (u_id existingUser) now of
             Inl e \<Rightarrow> Inl e
           | Inr d' \<Rightarrow> Inr (d', u_id existingUser))
      | Inr None \<Rightarrow>
          (case insert_user flt d fresh_uid code name sid now of
             Inl e \<Rightarrow> Inl e
           | Inr d' \<Rightarrow> Inr (d', fresh_uid)))"

definition to_member :: "user_row \<Rightarrow> member" where
  "to_member u =
     \<lparr>mem_id = u_id u, mem_username = u_username u, mem_isOnline = u_is_online u,
      mem_lastSeen = u_last_seen u\<rparr>"

definition to_member_brief :: "user_row \<Rightarrow> member_brief" where
  "to_member_brief u = \<lparr>mb_id = u_id u, mb_username = u_username u, mb_isOnline = u_is_online u\<rparr>"

text \<open>The three queries of the snapshot and the two emits (lines 162 to 214).\<close>

definition join_snapshot ::
  "faults \<Rightarrow> string \<Rightarrow> string \<Rightarrow> string \<Rightarrow> string \<Rightarrow> store \<Rightarrow> db_error + effect list" where
  "join_snapshot flt sid code uid name d =
     (case select_room_users flt d code of
        Inl e \<Rightarrow> Inl e
      | Inr us \<Rightarrow>
     (case select_room_messages flt d code of
        Inl e \<Rightarrow> Inl e
      | Inr ms \<Rightarrow>
     (case select_call_history flt d code of
        Inl e \<Rightarrow> Inl e
      | Inr callHistory \<Rightarrow>
          Inr [Emit (ToSocket sid)
                 (RoomJoined \<lparr>s_roomCode = code, s_userId = uid, s_users = map to_member us,
                    s_messages = ms, s_callHistory = callHistory\<rparr>),
               Emit (ToOthers sid code) (UserJoined uid name (map to_member_brief us)),
               Log (UserJoinedRoom name code)])))"

text \<open>
  The \<^verbatim>\<open>try\<close> block from the room insert on, given what the room lookup returned. A
  failure carries the state reached so far: nothing done before it is undone.
\<close>

definition join_room_body ::
  "faults \<Rightarrow> conn \<Rightarrow> string \<Rightarrow> string \<Rightarrow> string \<Rightarrow> string \<Rightarrow> timestamp \<Rightarrow> room_row option \<Rightarrow> state
     \<Rightarrow> state \<times> db_error + state \<times> effect list" where
  "join_room_body flt sock code name fresh_rid fresh_uid now room st =
     (case (case room of
              None \<Rightarrow> insert_room flt (db st) fresh_rid code now
            | Some r \<Rightarrow> Inr (db st)) of
        Inl e \<Rightarrow> Inl (st, e)
      | Inr d1 \<Rightarrow>
          (case join_user flt (sock_id sock) code name fresh_uid now d1 of
             Inl e \<Rightarrow> Inl (st\<lparr>db := d1\<rparr>, e)
           | Inr (d2, uid) \<Rightarrow>
               let st2 = st\<lparr>db := d2,
                     sockets := register_presence (sock_id sock) code uid name (sockets st)\<rparr>
               in (case join_snapshot flt (sock_id sock) code uid name d2 of
                     Inl e \<Rightarrow> Inl (st2, e)
                   | Inr outs \<Rightarrow> Inr (st2, outs))))"

text \<open>The \<^verbatim>\<open>catch\<close> block of join-room.\<close>

definition join_catch :: "conn \<Rightarrow> state \<times> db_error + state \<times> effect list \<Rightarrow> state \<times> effect list" where
  "join_catch sock r =
     (case r of
        Inl (st, e) \<Rightarrow>
          (st, [Log (ErrJoiningRoom e),
                Emit (ToSocket (sock_id sock)) (ErrorNotice ''Failed to join room'')])
      | Inr ok \<Rightarrow> ok)"

text \<open>
  The handler resumed after its first \<^verbatim>\<open>await\<close>, on the state of that moment: other
  handlers may have run since the room lookup.
\<close>

definition join_room_resume ::
  "faults \<Rightarrow> conn \<Rightarrow> string \<Rightarrow> string \<Rightarrow> string \<Rightarrow> string \<Rightarrow> timestamp \<Rightarrow> room_row option \<Rightarrow> state
     \<Rightarrow> state \<times> effect list" where
  "join_room_resume flt sock code name fresh_rid fresh_uid now room st =
     join_catch sock (join_room_body flt sock code name fresh_rid fresh_uid now room st)"

text \<open>The whole \<^verbatim>\<open>try\<close> block, and the handler run without another handler in between.\<close>

definition join_room_try ::
  "faults \<Rightarrow> conn \<Rightarrow> string \<Rightarrow> string \<Rightarrow> string \<Rightarrow> string \<Rightarrow> timestamp \<Rightarrow> state
     \<Rightarrow> state \<times> db_error + state \<times> effect list" where
  "join_room_try flt sock code name fresh_rid fresh_uid now st =
     (case select_room flt (db st) code of
        Inl e \<Rightarrow> Inl (st, e)
      | Inr room \<Rightarrow> join_room_body flt sock code name fresh_rid fresh_uid now room st)"

definition join_room ::
  "faults \<Rightarrow> conn \<Rightarrow> string \<Rightarrow> string \<Rightarrow> string \<Rightarrow> string \<Rightarrow> timestamp \<Rightarrow> state
     \<Rightarrow> state \<times> effect list" where
  "join_room flt sock code name fresh_rid fresh_uid now st =
     join_catch sock (join_room_try flt sock code name fresh_rid fresh_uid now st)"

subsection \<open>send-message\<close>

text \<open>
  \<open>messageType\<close> is \<open>None\<close> when the payload has no such field (the destructuring
  default \<^verbatim>\<open>'text'\<close>); \<open>date_now\<close> is \<^verbatim>\<open>new Date()\<close>, read after the insert
  returned.
\<close>

definition send_message_catch :: "conn \<Rightarrow> state \<Rightarrow> error \<Rightarrow> state \<times> effect list" where
  "send_message_catch sock st e =
     (st, [Log (ErrSendingMessage e),
           Emit (ToSocket (sock_id sock)) (ErrorNotice ''Failed to send message'')])"

definition send_message ::
  "faults \<Rightarrow> conn \<Rightarrow> string \<Rightarrow> string option \<Rightarrow> timestamp \<Rightarrow> timestamp \<Rightarrow> state
     \<Rightarrow> state \<times> effect list" where
  "send_message flt sock message messageType now date_now st =
     (let kind = (case messageType of None \<Rightarrow> ''text'' | Some t \<Rightarrow> t) in
      case presence_of sock of
        None \<Rightarrow> send_message_catch sock st NotInRoom
      | Some (code, uid) \<Rightarrow>
          (case insert_message flt (db st) code uid (username sock) message kind now of
             Inl e \<Rightarrow> send_message_catch sock st (DbError e)
           | Inr (d', lastID) \<Rightarrow>
               (st\<lparr>db := d'\<rparr>,
                [Emit (ToAll code)
                   (NewMessage \<lparr>nm_id = lastID, nm_user_id = uid, nm_username = username sock,
                      nm_message = message, nm_message_type = kind,
                      nm_created_at = date_now\<rparr>)])))"

subsection \<open>Typing indicators and signalling\<close>

definition typing_start :: "conn \<Rightarrow> state \<Rightarrow> state \<times> effect list" where
  "typing_start sock st =
     (case room_of sock of
        None \<Rightarrow> (st, [])
      | Some code \<Rightarrow>
          (st, [Emit (ToOthers (sock_id sock) code)
                  (UserTypingStart (userId sock) (username sock))]))"

definition typing_stop :: "conn \<Rightarrow> state \<Rightarrow> state \<times> effect list" where
  "typing_stop sock st =
     (case room_of sock of
        None \<Rightarrow> (st, [])
      | Some code \<Rightarrow>
          (st, [Emit (ToOthers (sock_id sock) code) (UserTypingStop (userId sock))]))"

definition offer :: "conn \<Rightarrow> string \<Rightarrow> string \<Rightarrow> state \<Rightarrow> state \<times> effect list" where
  "offer sock payload ctype st =
     (case room_of sock of
        None \<Rightarrow> (st, [])
      | Some code \<Rightarrow>
          (st\<lparr>activeCalls :=
               (activeCalls st)(code \<mapsto> \<lparr>callType = ctype, initiator = userId sock\<rparr>)\<rparr>,
           [Emit (ToOthers (sock_id sock) code)
              (Offer payload (userId sock) (username sock) ctype)]))"

definition answer :: "conn \<Rightarrow> string \<Rightarrow> state \<Rightarrow> state \<times> effect list" where
  "answer sock payload st =
     (case room_of sock of
        None \<Rightarrow> (st, [])
      | Some code \<Rightarrow>
          (st, [Emit (ToOthers (sock_id sock) code) (Answer payload (userId sock))]))"

definition ice_candidate :: "conn \<Rightarrow> string \<Rightarrow> state \<Rightarrow> state \<times> effect list" where
  "ice_candidate sock payload st =
     (case room_of sock of
        None \<Rightarrow> (st, [])
      | Some code \<Rightarrow>
          (st, [Emit (ToOthers (sock_id sock) code) (IceCandidate payload (userId sock))]))"

subsection \<open>end-call and call-started\<close>

text \<open>
  end-call has no \<^verbatim>\<open>try\<close>: when the update fails the handler's promise rejects after
  the tracker entry is gone and before the emit. What the runtime does with the rejected
  promise is outside the model; the state is the one reached.
\<close>

definition end_call :: "faults \<Rightarrow> conn \<Rightarrow> timestamp \<Rightarrow> state \<Rightarrow> state \<times> effect list" where
  "end_call flt sock now st =
     (case room_of sock of
        None \<Rightarrow> (st, [])
      | Some code \<Rightarrow>
          let st1 = st\<lparr>activeCalls := (activeCalls st)(code := None)\<rparr> in
          (case update_calls_ended flt (db st1) code now of
             Inl e \<Rightarrow> (st1, [UnhandledRejection e])
           | Inr d' \<Rightarrow>
               (st1\<lparr>db := d'\<rparr>,
                [Emit (ToOthers (sock_id sock) code)
                   (CallEnded (userId sock) (username sock))])))"

definition call_started :: "faults \<Rightarrow> conn \<Rightarrow> string \<Rightarrow> timestamp \<Rightarrow> state \<Rightarrow> state \<times> effect list" where
  "call_started flt sock ctype now st =
     (case room_of sock of
        None \<Rightarrow> (st, [])
      | Some code \<Rightarrow>
          (case insert_call flt (db st) code ctype (userId sock) (username sock) now of
             Inl e \<Rightarrow> (st, [Log (ErrLoggingCall e)])
           | Inr d' \<Rightarrow> (st\<lparr>db := d'\<rparr>, [])))"

subsection \<open>disconnect and ping\<close>

definition disconnect :: "faults \<Rightarrow> conn \<Rightarrow> timestamp \<Rightarrow> state \<Rightarrow> state \<times> effect list" where
  "disconnect flt sock now st =
     (case presence_of sock of
        None \<Rightarrow> (st, [])
      | Some (code, uid) \<Rightarrow>
          (case update_users_offline flt (db st) (sock_id sock) now of
             Inl e \<Rightarrow> (st, [Log (ErrHandlingDisconnect e)])
           | Inr d' \<Rightarrow>
               (case count_online_users flt d' code of
                  Inl e \<Rightarrow> (st\<lparr>db := d'\<rparr>, [Log (ErrHandlingDisconnect e)])
                | Inr remainingUsers \<Rightarrow>
                    (st\<lparr>db := d'\<rparr>,
                     [Emit (ToOthers (sock_id sock) code) (UserLeft uid (username sock)),
                      Emit (ToOthers (sock_id sock) code) (UserTypingStop (Some uid)),
                      Log (UserLeftRoom (username sock) code)]))))"

definition ping :: "conn \<Rightarrow> state \<Rightarrow> state \<times> effect list" where
  "ping sock st = (st, [Emit (ToSocket (sock_id sock)) Pong])"

subsection \<open>The cleanup interval\<close>

definition cleanup :: "faults \<Rightarrow> timestamp \<Rightarrow> state \<Rightarrow> state \<times> effect list" where
  "cleanup flt now st =
     (case delete_inactive_users flt (db st) now of
        Inl e \<Rightarrow> (st, [Log (ErrCleaningUp e)])
      | Inr (d', changes) \<Rightarrow>
          (st\<lparr>db := d'\<rparr>, if changes > 0 then [Log (CleanedUp changes)] else []))"

section \<open>The server as a transition system\<close>

text \<open>
  What can happen to the server: a client connects, a connected client sends one of the
  events, the transport reports a disconnect, the interval timer fires. Each carries
  what the run draws from outside the program: the \<^verbatim>\<open>uuidv4()\<close> values of a join
  (room id, user id) and the \<^verbatim>\<open>new Date()\<close> of a send-message. A handler runs to its
  end before the next starts.
\<close>

datatype input =
  OnConnection string
| OnJoinRoom string string string string string
| OnSendMessage string string "string option" timestamp
| OnTypingStart string
| OnTypingStop string
| OnOffer string string string
| OnAnswer string string
| OnIceCandidate string string
| OnEndCall string
| OnCallStarted string string
| OnDisconnect string
| OnPing string
| OnInterval

definition new_conn :: "string \<Rightarrow> conn" where
  "new_conn sid =
     \<lparr>sock_id = sid, roomCode = None, userId = None, username = None, joined = [sid]\<rparr>"

definition with_socket ::
  "string \<Rightarrow> state \<Rightarrow> (conn \<Rightarrow> state \<Rightarrow> state \<times> effect list) \<Rightarrow> state \<times> effect list" where
  "with_socket sid st handler =
     (case find (\<lambda>c. sock_id c = sid) (sockets st) of
        None \<Rightarrow> (st, [])
      | Some sock \<Rightarrow> handler sock st)"

text \<open>
  A new socket is in the transport room named by its own id. At a disconnect the handler
  runs and the socket is gone from every room.
\<close>

fun step :: "faults \<Rightarrow> timestamp \<Rightarrow> input \<Rightarrow> state \<Rightarrow> state \<times> effect list" where
  "step flt now (OnConnection sid) st =
     (if sid \<in> set (map sock_id (sockets st)) then (st, [])
      else (st\<lparr>sockets := sockets st @ [new_conn sid]\<rparr>, [Log (UserConnected sid)]))"
| "step flt now (OnJoinRoom sid code name fresh_rid fresh_uid) st =
     with_socket sid st (\<lambda>sock. join_room flt sock code name fresh_rid fresh_uid now)"
| "step flt now (OnSendMessage sid message messageType date_now) st =
     with_socket sid st (\<lambda>sock. send_message flt sock message messageType now date_now)"
| "step flt now (OnTypingStart sid) st = with_socket sid st typing_start"
| "step flt now (OnTypingStop sid) st = with_socket sid st typing_stop"
| "step flt now (OnOffer sid payload ctype) st =
     with_socket sid st (\<lambda>sock. offer sock payload ctype)"
| "step flt now (OnAnswer sid payload) st = with_socket sid st (\<lambda>sock. answer sock payload)"
| "step flt now (OnIceCandidate sid payload) st =
     with_socket sid st (\<lambda>sock. ice_candidate sock payload)"
| "step flt now (OnEndCall sid) st = with_socket sid st (\<lambda>sock. end_call flt sock now)"
| "step flt now (OnCallStarted sid ctype) st =
     with_socket sid st (\<lambda>sock. call_started flt sock ctype now)"
| "step flt now (OnDisconnect sid) st =
     with_socket sid st (\<lambda>sock st0.
       case disconnect flt sock now st0 of
         (st', outs) \<Rightarrow> (st'\<lparr>sockets := filter (\<lambda>c. sock_id c \<noteq> sid) (sockets st')\<rparr>, outs))"
| "step flt now (OnPing sid) st = with_socket sid st ping"
| "step flt now OnInterval st = cleanup flt now st"

text \<open>
  A run: each input with the faults and the clock of its moment; the result lists the
  states passed through, the first being the start.
\<close>

fun run :: "(faults \<times> timestamp \<times> input) list \<Rightarrow> state \<Rightarrow> state list" where
  "run [] st = [st]"
| "run ((flt, now, i) # rest) st = st # run rest (fst (step flt now i st))"

section \<open>Notions used to state the properties\<close>

text \<open>Fault oracles: no statement fails, or exactly one does.\<close>

definition no_faults :: faults where
  "no_faults s = False"

definition only_fault :: "stmt \<Rightarrow> faults" where
  "only_fault s t = (t = s)"

text \<open>Concrete stores, connections and states for the examples.\<close>

definition empty_store :: store where
  "empty_store =
     \<lparr>rooms = [], users = [], messages = [], calls = [], messages_seq = 0, calls_seq = 0\<rparr>"

definition demo_conn :: "string \<Rightarrow> string \<Rightarrow> string \<Rightarrow> string \<Rightarrow> conn" where
  "demo_conn sid code uid name =
     \<lparr>sock_id = sid, roomCode = Some code, userId = Some uid, username = Some name,
      joined = [code, sid]\<rparr>"

definition two_fresh :: state where
  "two_fresh =
     \<lparr>db = empty_store, sockets = [new_conn ''s1'', new_conn ''s2''], activeCalls = Map.empty\<rparr>"

definition two_joined :: state where
  "two_joined =
     \<lparr>db = empty_store,
      sockets = [demo_conn ''s1'' ''abc123'' ''u1'' ''alice'',
                 demo_conn ''s2'' ''abc123'' ''u2'' ''bob''],
      activeCalls = Map.empty\<rparr>"

definition one_fresh :: state where
  "one_fresh = \<lparr>db = empty_store, sockets = [new_conn ''s1''], activeCalls = Map.empty\<rparr>"

text \<open>Two fresh connections, and the room \<^verbatim>\<open>abc123\<close> already created by another join.\<close>

definition room_taken :: state where
  "room_taken =
     \<lparr>db = empty_store\<lparr>rooms := [\<lparr>r_id = ''r2'', r_code = ''abc123'', r_created_at = 100\<rparr>]\<rparr>,
      sockets = [new_conn ''s1'', new_conn ''s2''], activeCalls = Map.empty\<rparr>"

text \<open>
  alice has reconnected on \<^verbatim>\<open>s2\<close> while her old connection \<^verbatim>\<open>s1\<close> is still
  open; bob's row carries \<^verbatim>\<open>s1\<close>.
\<close>

definition stale_reconnect :: state where
  "stale_reconnect =
     \<lparr>db = empty_store\<lparr>users :=
        [\<lparr>u_id = ''u1'', u_room_code = ''abc123'', u_username = ''alice'', u_socket_id = ''s2'',
          u_joined_at = 100, u_is_online = 1, u_last_seen = 200\<rparr>,
         \<lparr>u_id = ''u2'', u_room_code = ''abc123'', u_username = ''bob'', u_socket_id = ''s1'',
          u_joined_at = 100, u_is_online = 1, u_last_seen = 150\<rparr>]\<rparr>,
      sockets = [demo_conn ''s1'' ''abc123'' ''u1'' ''alice'',
                 demo_conn ''s2'' ''abc123'' ''u1'' ''alice''],
      activeCalls = Map.empty\<rparr>"

definition two_active_calls :: state where
  "two_active_calls =
     \<lparr>db = empty_store\<lparr>calls :=
        [\<lparr>c_id = 1, c_room_code = ''abc123'', c_call_type = ''video'',
          c_initiator_id = Some ''u1'', c_initiator_name = Some ''alice'',
          c_status = ''active'', c_started_at = 100, c_ended_at = None\<rparr>,
         \<lparr>c_id = 2, c_room_code = ''abc123'', c_call_type = ''video'',
          c_initiator_id = Some ''u2'', c_initiator_name = Some ''bob'',
          c_status = ''active'', c_started_at = 200, c_ended_at = None\<rparr>],
        calls_seq := 2\<rparr>,
      sockets = [demo_conn ''s1'' ''abc123'' ''u1'' ''alice'',
                 demo_conn ''s2'' ''abc123'' ''u2'' ''bob''],
      activeCalls = Map.empty\<rparr>"

definition sweep_store :: state where
  "sweep_store =
     \<lparr>db = empty_store\<lparr>users :=
        [\<lparr>u_id = ''u1'', u_room_code = ''abc123'', u_username = ''alice'', u_socket_id = ''s1'',
          u_joined_at = 100, u_is_online = 0, u_last_seen = 200\<rparr>,
         \<lparr>u_id = ''u2'', u_room_code = ''abc123'', u_username = ''bob'', u_socket_id = ''s2'',
          u_joined_at = 100, u_is_online = 0, u_last_seen = 9000\<rparr>,
         \<lparr>u_id = ''u3'', u_room_code = ''abc123'', u_username = ''carol'', u_socket_id = ''s3'',
          u_joined_at = 100, u_is_online = 1, u_last_seen = 200\<rparr>]\<rparr>,
      sockets = [], activeCalls = Map.empty\<rparr>"


text \<open>
  The status of the call row with key \<open>i\<close>, if there is one, and the number of steps of
  a sequence that go from \<open>a\<close> to \<open>b\<close>.
\<close>

definition row_status :: "call_row list \<Rightarrow> int \<Rightarrow> string option" where
  "row_status cs i = map_option c_status (find (\<lambda>c. c_id c = i) cs)"

definition call_status :: "state \<Rightarrow> int \<Rightarrow> string option" where
  "call_status st i = row_status (calls (db st)) i"

fun transitions :: "'a \<Rightarrow> 'a \<Rightarrow> 'a list \<Rightarrow> nat" where
  "transitions a b (x # y # zs) = (if x = a \<and> y = b then 1 else 0) + transitions a b (y # zs)"
| "transitions a b [x] = 0"
| "transitions a b [] = 0"

text \<open>
  A room with history: zoe is offline, bob online; the author of the older message has no
  user row any more; one call has ended and a later one is active.
\<close>

definition history_state :: state where
  "history_state =
     \<lparr>db = \<lparr>rooms = [\<lparr>r_id = ''r1'', r_code = ''abc123'', r_created_at = 10\<rparr>],
            users =
              [\<lparr>u_id = ''u1'', u_room_code = ''abc123'', u_username = ''zoe'',
                u_socket_id = ''s0'', u_joined_at = 10, u_is_online = 0, u_last_seen = 60\<rparr>,
               \<lparr>u_id = ''u2'', u_room_code = ''abc123'', u_username = ''bob'',
                u_socket_id = ''s2'', u_joined_at = 20, u_is_online = 1, u_last_seen = 20\<rparr>],
            messages =
              [\<lparr>m_id = 1, m_room_code = ''abc123'', m_user_id = ''u2'',
                m_username = Some ''bob'', m_message = ''later'', m_message_type = ''text'',
                m_created_at = 50\<rparr>,
               \<lparr>m_id = 2, m_room_code = ''abc123'', m_user_id = ''u9'',
                m_username = Some ''dan'', m_message = ''earlier'', m_message_type = ''text'',
                m_created_at = 40\<rparr>],
            calls =
              [\<lparr>c_id = 1, c_room_code = ''abc123'', c_call_type = ''video'',
                c_initiator_id = Some ''u2'', c_initiator_name = Some ''bob'',
                c_status = ''ended'', c_started_at = 30, c_ended_at = Some 35\<rparr>,
               \<lparr>c_id = 2, c_room_code = ''abc123'', c_call_type = ''audio'',
                c_initiator_id = Some ''u1'', c_initiator_name = Some ''zoe'',
                c_status = ''active'', c_started_at = 45, c_ended_at = None\<rparr>],
            messages_seq = 2, calls_seq = 2\<rparr>,
      sockets = [new_conn ''s1'', demo_conn ''s2'' ''abc123'' ''u2'' ''bob''],
      activeCalls = Map.empty\<rparr>"

text \<open>The snapshot a join emitted, if it emitted one.\<close>

fun snapshot_of :: "effect list \<Rightarrow> snapshot option" where
  "snapshot_of [] = None"
| "snapshot_of (Emit a (RoomJoined s) # outs) = Some s"
| "snapshot_of (out # outs) = snapshot_of outs"

text \<open>
  A message row and a row of the history query without their \<^verbatim>\<open>username\<close> column,
  the one column in which the two differ.
\<close>

definition m_core :: "message_row \<Rightarrow> int \<times> string \<times> string \<times> string \<times> string \<times> timestamp" where
  "m_core m =
     (m_id m, m_room_code m, m_user_id m, m_message m, m_message_type m, m_created_at m)"

definition h_core :: "history_row \<Rightarrow> int \<times> string \<times> string \<times> string \<times> string \<times> timestamp" where
  "h_core h =
     (h_id h, h_room_code h, h_user_id h, h_message h, h_message_type h, h_created_at h)"

text \<open>
  \<open>history_state\<close> with the row of dan, the author of the older message: offline and
  last seen long ago.
\<close>

definition before_sweep :: state where
  "before_sweep =
     history_state\<lparr>db := (db history_state)\<lparr>users := users (db history_state) @
        [\<lparr>u_id = ''u9'', u_room_code = ''abc123'', u_username = ''dan'', u_socket_id = ''s9'',
          u_joined_at = 10, u_is_online = 0, u_last_seen = 60\<rparr>]\<rparr>\<rparr>"

text \<open>What identifies a user row and never changes: id, room code, username.\<close>

definition u_key :: "user_row \<Rightarrow> string \<times> string \<times> string" where
  "u_key u = (u_id u, u_room_code u, u_username u)"

text \<open>The user id a step draws from \<^verbatim>\<open>uuidv4()\<close>, if it is a join.\<close>

fun drawn_uid :: "input \<Rightarrow> string option" where
  "drawn_uid (OnJoinRoom sid code name fresh_rid fresh_uid) = Some fresh_uid"
| "drawn_uid i = None"

text \<open>
  The constraints the schema puts on the tables (primary keys, the unique room code), and
  what the transport guarantees of its sockets: their ids differ, and a socket whose room
  code is set has joined that room.
\<close>

definition store_ok :: "store \<Rightarrow> bool" where
  "store_ok d \<longleftrightarrow>
     distinct (map r_id (rooms d)) \<and> distinct (map r_code (rooms d)) \<and>
     distinct (map u_id (users d)) \<and> distinct (map m_id (messages d)) \<and>
     distinct (map c_id (calls d))"

definition conns_ok :: "state \<Rightarrow> bool" where
  "conns_ok st \<longleftrightarrow>
     distinct (map sock_id (sockets st)) \<and>
     list_all (\<lambda>c. case roomCode c of None \<Rightarrow> True | Some code \<Rightarrow> code \<in> set (joined c))
       (sockets st)"

section \<open>Properties\<close>

subsection \<open>send-message\<close>

lemma presence_ofD:
  "presence_of sock = Some (code, uid) \<Longrightarrow>
     roomCode sock = Some code \<and> userId sock = Some uid \<and> code \<noteq> [] \<and> uid \<noteq> []"
  by (auto simp: presence_of_def room_of_def split: option.splits if_splits)

lemma presence_in_room:
  assumes "conns_ok st" and "find (\<lambda>c. sock_id c = sid) (sockets st) = Some sock"
    and "presence_of sock = Some (code, uid)"
  shows "sock \<in> set (sockets st) \<and> code \<in> set (joined sock)"
proof -
  from assms(2) have mem: "sock \<in> set (sockets st)"
    by (auto simp: find_Some_iff in_set_conv_nth)
  with assms(1) presence_ofD[OF assms(3)] show ?thesis
    by (auto simp: conns_ok_def list_all_iff)
qed

text \<open>
  C1. A send-message from a connection with presence (room code and user id set and not
  empty, which is what the handler tests; the connection is one of the server's sockets
  and has joined its room, as \<open>presence_in_room\<close> shows of every connection a step
  dispatches to): when the insert of the message
  row succeeds, the new-message notice, with the id the store assigned and the server's
  timestamp, goes to every connection in the room, the sender among them; when the insert
  fails, the state is unchanged and the only delivery is the error notice to the sender.
  So some connection receives a new-message notice exactly when the insert succeeded.
\<close>

theorem send_message_broadcast_iff_persisted:
  assumes pres: "presence_of sock = Some (code, uid)"
    and member: "sock \<in> set (sockets st)" "code \<in> set (joined sock)"
    and run: "send_message flt sock message messageType now date_now st = (st', outs)"
  shows "let kind = (case messageType of None \<Rightarrow> ''text'' | Some t \<Rightarrow> t);
             inserted = insert_message flt (db st) code uid (username sock) message kind now;
             got = deliveries (sockets st') outs
         in (case inserted of
               Inl e \<Rightarrow>
                 st' = st \<and> got = [(sock_id sock, ErrorNotice ''Failed to send message'')]
             | Inr (d', lastID) \<Rightarrow>
                 st' = st\<lparr>db := d'\<rparr> \<and>
                 got = map (\<lambda>c. (sock_id c,
                         NewMessage \<lparr>nm_id = lastID, nm_user_id = uid,
                           nm_username = username sock, nm_message = message,
                           nm_message_type = kind, nm_created_at = date_now\<rparr>))
                       (filter (\<lambda>c. code \<in> set (joined c)) (sockets st)) \<and>
                 sock_id sock \<in> set (map fst got))
            \<and> ((\<exists>sid m. (sid, NewMessage m) \<in> set got) \<longleftrightarrow> (\<exists>r. inserted = Inr r))"
proof (cases "insert_message flt (db st) code uid (username sock) message
                (case messageType of None \<Rightarrow> ''text'' | Some t \<Rightarrow> t) now")
  case (Inl e)
  with pres run show ?thesis
    by (auto simp: send_message_def send_message_catch_def Let_def)
next
  case (Inr r)
  obtain d' lastID where r: "r = (d', lastID)" by (cases r)
  from pres run Inr r have st': "st' = st\<lparr>db := d'\<rparr>"
    and outs: "outs = [Emit (ToAll code)
                   (NewMessage \<lparr>nm_id = lastID, nm_user_id = uid, nm_username = username sock,
                      nm_message = message,
                      nm_message_type = (case messageType of None \<Rightarrow> ''text'' | Some t \<Rightarrow> t),
                      nm_created_at = date_now\<rparr>)]"
    by (auto simp: send_message_def Let_def)
  from member have "sock \<in> set (filter (\<lambda>c. code \<in> set (joined c)) (sockets st))" by simp
  with Inr r st' outs show ?thesis
    by (force simp: Let_def comp_def image_iff)
qed

theorem send_message_broadcast_iff_persisted_witness:
  "presence_of (demo_conn ''s1'' ''abc123'' ''u1'' ''alice'') = Some (''abc123'', ''u1'') \<and>
   deliveries (sockets two_joined)
     (snd (send_message no_faults (demo_conn ''s1'' ''abc123'' ''u1'' ''alice'')
             ''hi'' None 100 101 two_joined))
   = [(''s1'', NewMessage \<lparr>nm_id = 1, nm_user_id = ''u1'', nm_username = Some ''alice'',
          nm_message = ''hi'', nm_message_type = ''text'', nm_created_at = 101\<rparr>),
      (''s2'', NewMessage \<lparr>nm_id = 1, nm_user_id = ''u1'', nm_username = Some ''alice'',
          nm_message = ''hi'', nm_message_type = ''text'', nm_created_at = 101\<rparr>)] \<and>
   deliveries (sockets two_joined)
     (snd (send_message (only_fault InsMessage) (demo_conn ''s1'' ''abc123'' ''u1'' ''alice'')
             ''hi'' None 100 101 two_joined))
   = [(''s1'', ErrorNotice ''Failed to send message'')]"
  using send_message_broadcast_iff_persisted
    [of "demo_conn ''s1'' ''abc123'' ''u1'' ''alice''" "''abc123''" "''u1''" two_joined
        no_faults "''hi''" None 100 101
        "fst (send_message no_faults (demo_conn ''s1'' ''abc123'' ''u1'' ''alice'')
                ''hi'' None 100 101 two_joined)"
        "snd (send_message no_faults (demo_conn ''s1'' ''abc123'' ''u1'' ''alice'')
                ''hi'' None 100 101 two_joined)"]
  by (simp add: presence_of_def room_of_def demo_conn_def two_joined_def send_message_def
      send_message_catch_def insert_message_def next_rowid_def no_faults_def only_fault_def
      empty_store_def Let_def)

subsection \<open>join-room: failures\<close>

lemma join_snapshot_InlD:
  "join_snapshot flt sid code uid name d = Inl e \<Longrightarrow> flt SelUsers \<or> flt SelMessages \<or> flt SelCalls"
  by (auto simp: join_snapshot_def select_room_users_def select_room_messages_def
      select_call_history_def split: sum.splits if_splits)

text \<open>
  C2, as stated, fails: when the query for the member list fails, the join has already
  put the connection into the room and set its room code, user id and username, and the
  \<^verbatim>\<open>catch\<close> block takes none of it back. Here the only output is the error notice to
  \<^verbatim>\<open>s1\<close>, and afterwards \<^verbatim>\<open>s1\<close> has presence and is in the audience of room
  \<^verbatim>\<open>abc123\<close>.
\<close>

theorem join_abort_keeps_presence_counterexample:
  "snd (join_room (only_fault SelUsers) (new_conn ''s1'') ''abc123'' ''alice'' ''r1'' ''u1''
          100 one_fresh)
     = [Log (ErrJoiningRoom SQLITE_FAILURE),
        Emit (ToSocket ''s1'') (ErrorNotice ''Failed to join room'')] \<and>
   map presence_of
     (sockets (fst (join_room (only_fault SelUsers) (new_conn ''s1'') ''abc123'' ''alice''
                      ''r1'' ''u1'' 100 one_fresh)))
     = [Some (''abc123'', ''u1'')] \<and>
   recipients
     (sockets (fst (join_room (only_fault SelUsers) (new_conn ''s1'') ''abc123'' ''alice''
                      ''r1'' ''u1'' 100 one_fresh)))
     (ToAll ''abc123'')
     = [''s1'']"
  by (simp add: join_room_def join_room_try_def join_room_body_def join_catch_def join_user_def
      join_snapshot_def select_room_def insert_room_def select_user_def insert_user_def
      select_room_users_def register_presence_def only_fault_def one_fresh_def empty_store_def
      new_conn_def presence_of_def room_of_def)

text \<open>
  C2, amended. A join in which a store operation fails ends with the error notice to the
  joining connection and nothing to anyone else. When the failing operation is not one of
  the three snapshot queries, the connections are as before the join: no presence was
  registered. Otherwise the presence registered before the queries stays.
\<close>

theorem join_abort_error_to_joiner:
  assumes "join_room_try flt sock code name fresh_rid fresh_uid now st = Inl (st', e)"
  shows "join_room flt sock code name fresh_rid fresh_uid now st =
           (st', [Log (ErrJoiningRoom e),
                  Emit (ToSocket (sock_id sock)) (ErrorNotice ''Failed to join room'')]) \<and>
         deliveries (sockets st') (snd (join_room flt sock code name fresh_rid fresh_uid now st)) =
           [(sock_id sock, ErrorNotice ''Failed to join room'')] \<and>
         (sockets st' = sockets st \<or>
          (flt SelUsers \<or> flt SelMessages \<or> flt SelCalls) \<and>
          (\<exists>uid. sockets st' = register_presence (sock_id sock) code uid name (sockets st))) \<and>
         (\<not> flt SelUsers \<and> \<not> flt SelMessages \<and> \<not> flt SelCalls \<longrightarrow> sockets st' = sockets st)"
  using assms
  by (auto simp: join_room_def join_catch_def join_room_try_def join_room_body_def Let_def
      split: sum.splits option.splits prod.splits dest: join_snapshot_InlD)

theorem join_abort_error_to_joiner_witness:
  "join_room_try (only_fault InsUser) (new_conn ''s1'') ''abc123'' ''alice'' ''r1'' ''u1'' 100
       one_fresh
     = Inl (one_fresh\<lparr>db := empty_store\<lparr>rooms :=
              [\<lparr>r_id = ''r1'', r_code = ''abc123'', r_created_at = 100\<rparr>]\<rparr>\<rparr>, SQLITE_FAILURE) \<and>
   deliveries (sockets one_fresh)
     (snd (join_room (only_fault InsUser) (new_conn ''s1'') ''abc123'' ''alice'' ''r1'' ''u1'' 100
             one_fresh))
     = [(''s1'', ErrorNotice ''Failed to join room'')]"
  using join_abort_error_to_joiner
    [of "only_fault InsUser" "new_conn ''s1''" "''abc123''" "''alice''" "''r1''" "''u1''" 100
        one_fresh
        "one_fresh\<lparr>db := empty_store\<lparr>rooms :=
              [\<lparr>r_id = ''r1'', r_code = ''abc123'', r_created_at = 100\<rparr>]\<rparr>\<rparr>" SQLITE_FAILURE]
  by (simp add: join_room_try_def join_room_body_def join_user_def
      select_room_def insert_room_def select_user_def insert_user_def
      only_fault_def one_fresh_def empty_store_def new_conn_def)

text \<open>
  C3, as stated, fails: the handler has no path that reads the room again. Connection
  \<^verbatim>\<open>s1\<close> looks the room up and finds none; before its insert runs, the join of
  \<^verbatim>\<open>s2\<close> creates the room; the insert of \<^verbatim>\<open>s1\<close> then violates the uniqueness of
  the code and \<^verbatim>\<open>s1\<close> gets the error notice.
\<close>

theorem concurrent_room_creation_counterexample:
  "select_room no_faults (db two_fresh) ''abc123'' = Inr None \<and>
   join_room_resume no_faults (new_conn ''s1'') ''abc123'' ''alice'' ''r1'' ''u1'' 100 None
       (fst (join_room no_faults (new_conn ''s2'') ''abc123'' ''bob'' ''r2'' ''u2'' 100 two_fresh))
     = (fst (join_room no_faults (new_conn ''s2'') ''abc123'' ''bob'' ''r2'' ''u2'' 100 two_fresh),
        [Log (ErrJoiningRoom SQLITE_CONSTRAINT),
         Emit (ToSocket ''s1'') (ErrorNotice ''Failed to join room'')])"
  by (simp add: join_room_def join_room_try_def join_room_body_def join_catch_def join_user_def
      join_snapshot_def select_room_def insert_room_def select_user_def insert_user_def
      select_room_users_def select_room_messages_def select_call_history_def
      register_presence_def no_faults_def two_fresh_def empty_store_def join_room_resume_def
      new_conn_def)

lemma filter_distinct_key:
  "distinct (map f xs) \<Longrightarrow> k \<in> set (map f xs) \<Longrightarrow> length (filter (\<lambda>x. f x = k) xs) = 1"
proof (induction xs)
  case Nil
  then show ?case by simp
next
  case (Cons x xs)
  show ?case
  proof (cases "f x = k")
    case True
    from Cons.prems have "f x \<notin> f ` set xs"
      by simp
    with True have "\<forall>y\<in>set xs. f y \<noteq> k"
      by (metis imageI)
    then have "filter (\<lambda>y. f y = k) xs = []"
      by (simp add: filter_empty_conv)
    with True show ?thesis by simp
  next
    case False
    with Cons show ?thesis by auto
  qed
qed

text \<open>
  C3, amended. A join whose room insert meets a row with the same code (the table holds
  each code once) is not recovered: the insert fails with a constraint violation, the join
  changes nothing, the error notice goes to the joining connection only, and the table
  holds exactly one room row with that code.
\<close>

theorem join_duplicate_room_aborts:
  assumes present: "code \<in> set (map r_code (rooms (db st)))"
    and unique: "distinct (map r_code (rooms (db st)))"
    and nofault: "\<not> flt InsRoom"
  shows "insert_room flt (db st) fresh_rid code now = Inl SQLITE_CONSTRAINT \<and>
         join_room_resume flt sock code name fresh_rid fresh_uid now None st =
           (st, [Log (ErrJoiningRoom SQLITE_CONSTRAINT),
                 Emit (ToSocket (sock_id sock)) (ErrorNotice ''Failed to join room'')]) \<and>
         deliveries (sockets st)
             (snd (join_room_resume flt sock code name fresh_rid fresh_uid now None st)) =
           [(sock_id sock, ErrorNotice ''Failed to join room'')] \<and>
         length (filter (\<lambda>r. r_code r = code) (rooms (db st))) = 1"
proof -
  from present nofault have ins: "insert_room flt (db st) fresh_rid code now = Inl SQLITE_CONSTRAINT"
    by (simp add: insert_room_def)
  then have res: "join_room_resume flt sock code name fresh_rid fresh_uid now None st =
           (st, [Log (ErrJoiningRoom SQLITE_CONSTRAINT),
                 Emit (ToSocket (sock_id sock)) (ErrorNotice ''Failed to join room'')])"
    by (simp add: join_room_resume_def join_room_body_def join_catch_def)
  from unique present have "length (filter (\<lambda>r. r_code r = code) (rooms (db st))) = 1"
    by (rule filter_distinct_key)
  with ins res show ?thesis by simp
qed

theorem join_duplicate_room_aborts_witness:
  "''abc123'' \<in> set (map r_code (rooms (db room_taken))) \<and>
   distinct (map r_code (rooms (db room_taken))) \<and>
   join_room_resume no_faults (new_conn ''s1'') ''abc123'' ''alice'' ''r1'' ''u1'' 100 None
       room_taken
     = (room_taken, [Log (ErrJoiningRoom SQLITE_CONSTRAINT),
                     Emit (ToSocket ''s1'') (ErrorNotice ''Failed to join room'')]) \<and>
   length (filter (\<lambda>r. r_code r = ''abc123'') (rooms (db room_taken))) = 1"
  using join_duplicate_room_aborts
    [of "''abc123''" room_taken no_faults "''r1''" 100 "new_conn ''s1''" "''alice''" "''u1''"]
  by (simp add: room_taken_def empty_store_def no_faults_def new_conn_def)

subsection \<open>join-room: the user row\<close>






lemma join_room_body_InrD:
  assumes "join_room_body flt sock code name rid fresh now room st = Inr (st', outs)"
  shows "\<exists>d1 uid. users d1 = users (db st) \<and> messages d1 = messages (db st) \<and>
           calls d1 = calls (db st) \<and>
           join_user flt (sock_id sock) code name fresh now d1 = Inr (db st', uid) \<and>
           join_snapshot flt (sock_id sock) code uid name (db st') = Inr outs \<and>
           sockets st' = register_presence (sock_id sock) code uid name (sockets st) \<and>
           activeCalls st' = activeCalls st"
proof (cases "case room of None \<Rightarrow> insert_room flt (db st) rid code now | Some r \<Rightarrow> Inr (db st)")
  case (Inl e)
  with assms show ?thesis by (simp add: join_room_body_def)
next
  case (Inr d1)
  then have same: "users d1 = users (db st) \<and> messages d1 = messages (db st) \<and> calls d1 = calls (db st)"
    by (auto simp: insert_room_def split: option.splits if_splits)
  show ?thesis
  proof (cases "join_user flt (sock_id sock) code name fresh now d1")
    case (Inl e)
    with assms Inr show ?thesis by (simp add: join_room_body_def)
  next
    case ju: (Inr r)
    obtain d2 uid where r: "r = (d2, uid)" by (cases r)
    with assms Inr ju have
      "join_snapshot flt (sock_id sock) code uid name d2 = Inr outs \<and>
       st' = st\<lparr>db := d2, sockets := register_presence (sock_id sock) code uid name (sockets st)\<rparr>"
      by (auto simp: join_room_body_def Let_def split: sum.splits)
    with same ju r show ?thesis by auto
  qed
qed

lemma join_room_try_InrD:
  assumes "join_room_try flt sock code name rid fresh now st = Inr (st', outs)"
  shows "\<exists>d1 uid. users d1 = users (db st) \<and> messages d1 = messages (db st) \<and>
           calls d1 = calls (db st) \<and>
           join_user flt (sock_id sock) code name fresh now d1 = Inr (db st', uid) \<and>
           join_snapshot flt (sock_id sock) code uid name (db st') = Inr outs \<and>
           sockets st' = register_presence (sock_id sock) code uid name (sockets st) \<and>
           activeCalls st' = activeCalls st"
  using assms
  by (auto simp: join_room_try_def split: sum.splits dest!: join_room_body_InrD)

subsection \<open>disconnect\<close>

text \<open>
  C5. A disconnect of a connection with presence: unless the update fails, exactly the
  user rows whose stored connection id is the disconnecting connection's are set to
  is_online 0 and last_seen now; a row with another connection id (the user has
  reconnected elsewhere) is left as it is; the rows keep their ids and their order, so no
  row is deleted.
\<close>

theorem disconnect_marks_offline_by_connection:
  assumes pres: "presence_of sock = Some (code, uid)"
    and run: "disconnect flt sock now st = (st', outs)"
  shows "users (db st') =
           (if flt UpdUsersOffline then users (db st)
            else map (\<lambda>u. if u_socket_id u = sock_id sock
                           then u\<lparr>u_is_online := 0, u_last_seen := now\<rparr>
                           else u) (users (db st))) \<and>
         map u_id (users (db st')) = map u_id (users (db st)) \<and>
         (\<forall>i < length (users (db st)).
            u_socket_id (users (db st) ! i) \<noteq> sock_id sock \<longrightarrow>
            users (db st') ! i = users (db st) ! i)"
proof -
  let ?f = "\<lambda>u. if u_socket_id u = sock_id sock
                 then u\<lparr>u_is_online := 0, u_last_seen := now\<rparr> else u"
  have eq: "users (db st') = (if flt UpdUsersOffline then users (db st) else map ?f (users (db st)))"
    using pres run
    by (auto simp: disconnect_def update_users_offline_def count_online_users_def
        split: sum.splits if_splits)
  have ids: "map u_id (map ?f (users (db st))) = map u_id (users (db st))"
    by (induction "users (db st)") auto
  from eq ids show ?thesis by (auto simp del: map_map)
qed

theorem disconnect_marks_offline_by_connection_witness:
  "presence_of (demo_conn ''s1'' ''abc123'' ''u1'' ''alice'') = Some (''abc123'', ''u1'') \<and>
   users (db (fst (disconnect no_faults (demo_conn ''s1'' ''abc123'' ''u1'' ''alice'') 300 stale_reconnect)))
   = [\<lparr>u_id = ''u1'', u_room_code = ''abc123'', u_username = ''alice'', u_socket_id = ''s2'',
          u_joined_at = 100, u_is_online = 1, u_last_seen = 200\<rparr>,
      \<lparr>u_id = ''u2'', u_room_code = ''abc123'', u_username = ''bob'', u_socket_id = ''s1'',
          u_joined_at = 100, u_is_online = 0, u_last_seen = 300\<rparr>]"
  using disconnect_marks_offline_by_connection
    [of "demo_conn ''s1'' ''abc123'' ''u1'' ''alice''" "''abc123''" "''u1''" no_faults 300 stale_reconnect
      "fst (disconnect no_faults (demo_conn ''s1'' ''abc123'' ''u1'' ''alice'') 300 stale_reconnect)"
      "snd (disconnect no_faults (demo_conn ''s1'' ''abc123'' ''u1'' ''alice'') 300 stale_reconnect)"]
  by (simp add: presence_of_def room_of_def demo_conn_def no_faults_def stale_reconnect_def empty_store_def)

subsection \<open>end-call\<close>

text \<open>
  C6, as stated, fails: the update has no order and no limit, so it ends every active
  call row of the room, not only the most recent one. With two active rows, started at 100
  and at 200, both are ended.
\<close>

theorem end_call_ends_older_call_counterexample:
  "map c_status (calls (db two_active_calls)) = [''active'', ''active''] \<and>
   map c_started_at (calls (db two_active_calls)) = [100, 200] \<and>
   map c_status (calls (db (fst (end_call no_faults (demo_conn ''s1'' ''abc123'' ''u1'' ''alice'') 300 two_active_calls))))
     = [''ended'', ''ended'']"
  by (simp add: end_call_def update_calls_ended_def room_of_def demo_conn_def no_faults_def
      two_active_calls_def empty_store_def)

text \<open>
  C6, amended. An end-call from a connection with a room code, when the update succeeds:
  the tracker entry of the room is cleared, every call row of the room with status active
  becomes ended with ended_at now (none, if none is active) and no other row changes, and
  the call-ended notice with the sender's id and username goes to the other connections
  in the room and not to the sender.
\<close>

theorem end_call_ends_all_active:
  assumes room: "room_of sock = Some code"
    and ok: "\<not> flt UpdCallsEnded"
    and run: "end_call flt sock now st = (st', outs)"
  shows "activeCalls st' code = None \<and>
         calls (db st') =
           map (\<lambda>c. if c_room_code c = code \<and> c_status c = ''active''
                     then c\<lparr>c_status := ''ended'', c_ended_at := Some now\<rparr>
                     else c) (calls (db st)) \<and>
         outs = [Emit (ToOthers (sock_id sock) code) (CallEnded (userId sock) (username sock))] \<and>
         deliveries (sockets st') outs =
           map (\<lambda>c. (sock_id c, CallEnded (userId sock) (username sock)))
             (filter (\<lambda>c. code \<in> set (joined c) \<and> sock_id c \<noteq> sock_id sock) (sockets st)) \<and>
         sock_id sock \<notin> set (map fst (deliveries (sockets st') outs))"
  using assms
  by (auto simp: end_call_def update_calls_ended_def Let_def comp_def)

theorem end_call_ends_all_active_witness:
  "room_of (demo_conn ''s1'' ''abc123'' ''u1'' ''alice'') = Some ''abc123'' \<and>
   deliveries (sockets two_active_calls)
     (snd (end_call no_faults (demo_conn ''s1'' ''abc123'' ''u1'' ''alice'') 300 two_active_calls))
     = [(''s2'', CallEnded (Some ''u1'') (Some ''alice''))]"
  using end_call_ends_all_active
    [of "demo_conn ''s1'' ''abc123'' ''u1'' ''alice''" "''abc123''" no_faults 300 two_active_calls
      "fst (end_call no_faults (demo_conn ''s1'' ''abc123'' ''u1'' ''alice'') 300 two_active_calls)"
      "snd (end_call no_faults (demo_conn ''s1'' ''abc123'' ''u1'' ''alice'') 300 two_active_calls)"]
  by (simp add: room_of_def demo_conn_def no_faults_def two_active_calls_def empty_store_def)

subsection \<open>The cleanup interval\<close>

text \<open>
  C9. A run of the cleanup deletes exactly the user rows with is_online 0 and last_seen
  more than an hour (3600 seconds) before now: the users table afterwards is the old one
  without those rows, and nothing else changes. When the delete fails the error is logged
  and the state is unchanged, so a later run behaves as if the failed one had not happened.
\<close>

theorem cleanup_deletes_exactly_inactive:
  assumes run: "cleanup flt now st = (st', outs)"
  shows "if flt DelUsers
         then st' = st \<and> outs = [Log (ErrCleaningUp SQLITE_FAILURE)] \<and>
              cleanup flt2 now2 st' = cleanup flt2 now2 st
         else st' = st\<lparr>db := (db st)\<lparr>users :=
                filter (\<lambda>u. \<not> (u_is_online u = 0 \<and> u_last_seen u < now - 3600))
                  (users (db st))\<rparr>\<rparr> \<and>
              (\<forall>u. u \<in> set (users (db st')) \<longleftrightarrow>
                 u \<in> set (users (db st)) \<and>
                 \<not> (u_is_online u = 0 \<and> u_last_seen u < now - 3600))"
  using run
  by (auto simp: cleanup_def delete_inactive_users_def inactive_def split: if_splits)

theorem cleanup_deletes_exactly_inactive_witness:
  "map u_id (users (db (fst (cleanup no_faults 10000 sweep_store)))) = [''u2'', ''u3''] \<and>
   map u_id (users (db (fst (cleanup no_faults 10000
                               (fst (cleanup (only_fault DelUsers) 9999 sweep_store))))))
     = [''u2'', ''u3'']"
  using cleanup_deletes_exactly_inactive
    [of no_faults 10000 sweep_store "fst (cleanup no_faults 10000 sweep_store)"
        "snd (cleanup no_faults 10000 sweep_store)" no_faults 10000]
  by (simp add: cleanup_def delete_inactive_users_def inactive_def no_faults_def only_fault_def
      sweep_store_def empty_store_def)

subsection \<open>Call rows over a run\<close>

lemma insert_room_frame:
  "insert_room flt d rid code now = Inr d' \<Longrightarrow>
     users d' = users d \<and> messages d' = messages d \<and> calls d' = calls d"
  by (auto simp: insert_room_def split: if_splits)

lemma join_user_frame:
  "join_user flt sid code name fresh now d = Inr (d', uid) \<Longrightarrow>
     rooms d' = rooms d \<and> messages d' = messages d \<and> calls d' = calls d"
  by (auto simp: join_user_def select_user_def update_user_online_def insert_user_def
      split: sum.splits option.splits if_splits)

lemma join_room_body_frame:
  "join_room_body flt sock code name rid uid now room st = r \<Longrightarrow>
     (case r of
        Inl (st', e) \<Rightarrow> messages (db st') = messages (db st) \<and> calls (db st') = calls (db st)
      | Inr (st', outs) \<Rightarrow> messages (db st') = messages (db st) \<and> calls (db st') = calls (db st))"
  unfolding join_room_body_def Let_def
  by (auto split: sum.splits option.splits prod.splits dest!: insert_room_frame join_user_frame)

lemma join_room_calls [simp]:
  "calls (db (fst (join_room flt sock code name rid uid now st))) = calls (db st)"
proof (cases "select_room flt (db st) code")
  case (Inl e)
  then show ?thesis by (simp add: join_room_def join_room_try_def join_catch_def)
next
  case (Inr room)
  with join_room_body_frame[OF refl, where st = st and room = room and flt = flt and sock = sock
      and code = code and name = name and rid = rid and uid = uid and now = now]
  show ?thesis
    by (simp add: join_room_def join_room_try_def join_catch_def split: sum.splits prod.splits)
qed

lemma send_message_calls [simp]:
  "calls (db (fst (send_message flt sock m t now dn st))) = calls (db st)"
  by (simp add: send_message_def send_message_catch_def insert_message_def Let_def
      split: option.splits prod.splits)

lemma disconnect_calls [simp]:
  "calls (db (fst (disconnect flt sock now st))) = calls (db st)"
  by (simp add: disconnect_def update_users_offline_def count_online_users_def
      split: option.splits prod.splits)

lemma cleanup_calls [simp]:
  "calls (db (fst (cleanup flt now st))) = calls (db st)"
  by (simp add: cleanup_def delete_inactive_users_def)


lemma transitions_none_from:
  "a \<notin> set xs \<Longrightarrow> transitions a b xs = 0"
  by (induction a b xs rule: transitions.induct) auto

lemma transitions_none_to:
  "b \<notin> set xs \<Longrightarrow> transitions a b xs = 0"
  by (induction a b xs rule: transitions.induct) auto

lemma absorbing_all:
  "successively (\<lambda>x y. x = e \<longrightarrow> y = e) (e # xs) \<Longrightarrow> set xs \<subseteq> {e}"
proof (induction xs)
  case Nil
  then show ?case by simp
next
  case (Cons x xs)
  from Cons.prems have "x = e" by simp
  with Cons show ?case by simp
qed

lemma absorbing_transitions:
  assumes "successively (\<lambda>x y. x = e \<longrightarrow> y = e) xs" and "a \<noteq> e"
  shows "transitions a e xs \<le> 1 \<and> transitions e a xs = 0"
  using assms
proof (induction xs)
  case Nil
  then show ?case by simp
next
  case (Cons x xs)
  then have IH: "transitions a e xs \<le> 1 \<and> transitions e a xs = 0"
    by (cases xs) simp_all
  show ?case
  proof (cases xs)
    case Nil
    then show ?thesis by simp
  next
    case (Cons y ys)
    show ?thesis
    proof (cases "y = e")
      case True
      with Cons.prems(1) Cons have "set ys \<subseteq> {e}"
        using absorbing_all[of e ys] by simp
      with True Cons \<open>a \<noteq> e\<close> have "a \<notin> set xs" by auto
      then have "transitions a e xs = 0" "transitions e a xs = 0"
        by (simp_all add: transitions_none_from transitions_none_to)
      with Cons True \<open>a \<noteq> e\<close> show ?thesis by auto
    next
      case False
      with Cons.prems(1) Cons have "x \<noteq> e" by auto
      with IH Cons False show ?thesis by auto
    qed
  qed
qed

lemma fst_with_socket:
  "fst (with_socket sid st h) =
     (case find (\<lambda>c. sock_id c = sid) (sockets st) of None \<Rightarrow> st | Some sock \<Rightarrow> fst (h sock st))"
  by (simp add: with_socket_def split: option.splits)

lemma ended_kept_by_update:
  assumes "row_status cs i = Some ''ended''"
  shows "row_status
           (map (\<lambda>c. if c_room_code c = code \<and> c_status c = ''active''
                      then c\<lparr>c_status := ''ended'', c_ended_at := Some now\<rparr> else c) cs) i
         = Some ''ended''"
  using assms unfolding row_status_def by (induction cs) (auto split: if_splits)

lemma ended_kept_by_append:
  assumes "row_status cs i = Some ''ended''"
  shows "row_status (cs @ zs) i = Some ''ended''"
  using assms unfolding row_status_def by (induction cs) (auto split: if_splits)

lemma end_call_ended:
  assumes "row_status (calls (db st)) i = Some ''ended''"
  shows "row_status (calls (db (fst (end_call flt sock now st)))) i = Some ''ended''"
proof (cases "room_of sock")
  case None
  with assms show ?thesis by (simp add: end_call_def)
next
  case (Some code)
  with assms show ?thesis
    by (cases "flt UpdCallsEnded")
      (simp_all add: end_call_def update_calls_ended_def Let_def ended_kept_by_update)
qed

lemma call_started_ended:
  assumes "row_status (calls (db st)) i = Some ''ended''"
  shows "row_status (calls (db (fst (call_started flt sock ct now st)))) i = Some ''ended''"
proof (cases "room_of sock")
  case None
  with assms show ?thesis by (simp add: call_started_def)
next
  case (Some code)
  with assms show ?thesis
    by (cases "flt InsCall")
      (simp_all add: call_started_def insert_call_def Let_def ended_kept_by_append)
qed

lemma step_ended:
  assumes "call_status st i = Some ''ended''"
  shows "call_status (fst (step flt now ev st)) i = Some ''ended''"
  unfolding call_status_def
proof (cases ev)
  case (OnDisconnect sid)
  with assms show "row_status (calls (db (fst (step flt now ev st)))) i = Some ''ended''"
    by (simp add: fst_with_socket call_status_def split: option.splits prod.splits)
      (metis disconnect_calls fst_conv)
qed (use assms in \<open>simp_all add: fst_with_socket end_call_ended call_started_ended
      typing_start_def typing_stop_def offer_def answer_def ice_candidate_def ping_def
      call_status_def split: option.splits\<close>)

lemma run_absorbing:
  "successively (\<lambda>x y. x = Some ''ended'' \<longrightarrow> y = Some ''ended'')
     (map (\<lambda>s. call_status s i) (run evs st))"
proof (induction evs arbitrary: st)
  case Nil
  then show ?case by simp
next
  case (Cons ev evs)
  obtain flt now inp where ev: "ev = (flt, now, inp)" by (cases ev)
  obtain ss where r: "run evs (fst (step flt now inp st)) = fst (step flt now inp st) # ss"
    by (cases evs) auto
  from Cons.IH[of "fst (step flt now inp st)"] r ev show ?case
    by (simp add: step_ended)
qed

text \<open>
  C7. Over any run of the server, from any state, with any faults: the status of a call
  row goes from active to ended at most once and never from ended to active.
\<close>

theorem call_row_ends_at_most_once:
  "transitions (Some ''active'') (Some ''ended'') (map (\<lambda>s. call_status s i) (run evs st)) \<le> 1 \<and>
   transitions (Some ''ended'') (Some ''active'') (map (\<lambda>s. call_status s i) (run evs st)) = 0"
  using absorbing_transitions[OF run_absorbing, of "Some ''active''" i evs st] by simp

theorem call_row_ends_at_most_once_witness:
  "map (\<lambda>s. call_status s 1)
     (run [(no_faults, 100, OnCallStarted ''s1'' ''video''), (no_faults, 200, OnEndCall ''s2''),
           (no_faults, 300, OnCallStarted ''s2'' ''audio''), (no_faults, 400, OnEndCall ''s1'')]
        two_joined)
     = [None, Some ''active'', Some ''ended'', Some ''ended'', Some ''ended''] \<and>
   transitions (Some ''active'') (Some ''ended'')
     (map (\<lambda>s. call_status s 1)
        (run [(no_faults, 100, OnCallStarted ''s1'' ''video''), (no_faults, 200, OnEndCall ''s2''),
              (no_faults, 300, OnCallStarted ''s2'' ''audio''), (no_faults, 400, OnEndCall ''s1'')]
           two_joined))
     = 1"
  using call_row_ends_at_most_once
    [of 1 "[(no_faults, 100, OnCallStarted ''s1'' ''video''), (no_faults, 200, OnEndCall ''s2''),
            (no_faults, 300, OnCallStarted ''s2'' ''audio''), (no_faults, 400, OnEndCall ''s1'')]"
        two_joined]
  by (simp add: call_status_def row_status_def with_socket_def call_started_def end_call_def
      insert_call_def update_calls_ended_def next_rowid_def room_of_def no_faults_def
      two_joined_def demo_conn_def empty_store_def Let_def)

subsection \<open>join-room: the snapshot\<close>

lemma filter_key_distinct_le1:
  "distinct (map f xs) \<Longrightarrow> length (filter (\<lambda>x. k = f x) xs) \<le> 1"
proof (induction xs)
  case Nil
  then show ?case by simp
next
  case (Cons x xs)
  show ?case
  proof (cases "k = f x")
    case True
    from Cons.prems have "f x \<notin> f ` set xs" by simp
    with True have "\<forall>y\<in>set xs. k \<noteq> f y" by (metis imageI)
    then have "filter (\<lambda>y. k = f y) xs = []" by (simp add: filter_empty_conv)
    with True show ?thesis by simp
  next
    case False
    with Cons show ?thesis by simp
  qed
qed

lemma left_join_single:
  assumes "distinct (map u_id us)"
  shows "\<exists>name. left_join_users us m = [joined_row m name]"
proof (cases "filter (\<lambda>u. m_user_id m = u_id u) us")
  case Nil
  then have "left_join_users us m = [joined_row m None]" by (simp add: left_join_users_def)
  then show ?thesis by blast
next
  case (Cons v vs)
  from filter_key_distinct_le1[OF assms, of "m_user_id m"] Cons have "vs = []" by simp
  with Cons have "left_join_users us m = [joined_row m (Some (u_username v))]"
    by (simp add: left_join_users_def)
  then show ?thesis by blast
qed

lemma h_core_joined_row [simp]: "h_core (joined_row m name) = m_core m"
  by (simp add: h_core_def m_core_def joined_row_def)

lemma left_join_cores:
  assumes "distinct (map u_id us)"
  shows "map h_core (concat (map (left_join_users us) ms)) = map m_core ms"
proof (induction ms)
  case Nil
  then show ?case by simp
next
  case (Cons m ms)
  from left_join_single[OF assms, of m] obtain name
    where "left_join_users us m = [joined_row m name]" by blast
  with Cons show ?case by simp
qed

lemma sorted_wrt_take_drop:
  "sorted_wrt P xs \<Longrightarrow> \<forall>x\<in>set (take n xs). \<forall>y\<in>set (drop n xs). P x y"
  using sorted_wrt_append[of P "take n xs" "drop n xs"] by simp

lemma select_room_messages_history:
  assumes "select_room_messages flt d code = Inr ms" and "distinct (map u_id (users d))"
  shows "mset (map h_core ms) = mset (map m_core (filter (\<lambda>m. m_room_code m = code) (messages d)))
       \<and> sorted_wrt (\<lambda>a b. h_created_at a \<le> h_created_at b) ms"
proof -
  let ?rows = "concat (map (left_join_users (users d)) (filter (\<lambda>m. m_room_code m = code) (messages d)))"
  from assms(1) have ms: "ms = sort_key h_created_at ?rows"
    by (simp add: select_room_messages_def split: if_splits)
  have "mset (map h_core ms) = image_mset h_core (mset ?rows)"
    by (simp add: ms)
  also have "\<dots> = mset (map h_core ?rows)" by simp
  also have "\<dots> = mset (map m_core (filter (\<lambda>m. m_room_code m = code) (messages d)))"
    by (simp only: left_join_cores[OF assms(2)])
  finally have perm: "mset (map h_core ms) = mset (map m_core (filter (\<lambda>m. m_room_code m = code) (messages d)))" .
  have "sorted (map h_created_at ms)" by (simp add: ms)
  then have "sorted_wrt (\<lambda>a b. h_created_at a \<le> h_created_at b) ms"
    by (simp add: sorted_map)
  with perm show ?thesis by simp
qed

lemma select_room_users_members:
  assumes "select_room_users flt d code = Inr us"
  shows "mset (map to_member us) = mset (map to_member (filter (\<lambda>u. u_room_code u = code) (users d)))
       \<and> sorted_wrt (\<lambda>a b. mem_isOnline b < mem_isOnline a \<or>
                          mem_isOnline b = mem_isOnline a \<and> mem_username a \<le> mem_username b)
           (map to_member us)"
proof -
  let ?key = "\<lambda>u. (- u_is_online u, u_username u)"
  from assms have us: "us = sort_key ?key (filter (\<lambda>u. u_room_code u = code) (users d))"
    by (simp add: select_room_users_def split: if_splits)
  have "sorted (map ?key us)" unfolding us by (rule sorted_sort_key)
  then have "sorted_wrt (\<lambda>a b. ?key a \<le> ?key b) us" by (simp only: sorted_map)
  then have "sorted_wrt (\<lambda>a b. u_is_online b < u_is_online a \<or>
                          u_is_online b = u_is_online a \<and> u_username a \<le> u_username b) us"
    by (rule sorted_wrt_mono_rel[rotated]) auto
  then have "sorted_wrt (\<lambda>a b. mem_isOnline b < mem_isOnline a \<or>
                          mem_isOnline b = mem_isOnline a \<and> mem_username a \<le> mem_username b)
           (map to_member us)"
    by (simp add: sorted_wrt_map to_member_def)
  moreover have "mset (map to_member us) = mset (map to_member (filter (\<lambda>u. u_room_code u = code) (users d)))"
    by (simp add: us)
  ultimately show ?thesis by simp
qed

lemma select_call_history_recent:
  assumes "select_call_history flt d code = Inr cs"
  shows "length cs = min 10 (length (filter (\<lambda>c. c_room_code c = code) (calls d))) \<and>
         sorted_wrt (\<lambda>a b. c_started_at b \<le> c_started_at a) cs \<and>
         (\<exists>older. mset cs + mset older = mset (filter (\<lambda>c. c_room_code c = code) (calls d)) \<and>
            (\<forall>c\<in>set cs. \<forall>p\<in>set older. c_started_at p \<le> c_started_at c))"
proof -
  let ?all = "sort_key (\<lambda>c. - c_started_at c) (filter (\<lambda>c. c_room_code c = code) (calls d))"
  from assms have cs: "cs = take 10 ?all"
    by (simp add: select_call_history_def split: if_splits)
  have "sorted (map (\<lambda>c. - c_started_at c) ?all)" by (rule sorted_sort_key)
  then have sorted_all: "sorted_wrt (\<lambda>a b. c_started_at b \<le> c_started_at a) ?all"
    by (simp add: sorted_map)
  then have "sorted_wrt (\<lambda>a b. c_started_at b \<le> c_started_at a) (take 10 ?all @ drop 10 ?all)" by simp
  then have s1: "sorted_wrt (\<lambda>a b. c_started_at b \<le> c_started_at a) cs"
    unfolding sorted_wrt_append cs by blast
  have s2: "\<forall>c\<in>set cs. \<forall>p\<in>set (drop 10 ?all). c_started_at p \<le> c_started_at c"
    using sorted_wrt_take_drop[OF sorted_all, of 10] cs by simp
  have "mset cs + mset (drop 10 ?all) = mset (take 10 ?all @ drop 10 ?all)"
    by (simp only: cs mset_append)
  then have s3: "mset cs + mset (drop 10 ?all) = mset (filter (\<lambda>c. c_room_code c = code) (calls d))"
    by simp
  have "length cs = min 10 (length (filter (\<lambda>c. c_room_code c = code) (calls d)))"
    by (simp add: cs min.commute)
  with s1 s2 s3 show ?thesis by blast
qed

lemma join_user_distinct:
  assumes "join_user flt sid code name fresh now d = Inr (d', uid)"
    and "distinct (map u_id (users d))"
  shows "distinct (map u_id (users d'))"
proof -
  have same: "map u_id (map (\<lambda>u. if u_id u = k
                  then u\<lparr>u_socket_id := sid, u_is_online := 1, u_last_seen := now\<rparr>
                  else u) us) = map u_id us" for k us
    by (induction us) auto
  from assms show ?thesis
    by (auto simp: join_user_def select_user_def update_user_online_def insert_user_def same
        simp del: map_map split: sum.splits option.splits if_splits)
qed

lemma join_snapshot_InrD:
  assumes "join_snapshot flt sid code uid name d = Inr outs"
  shows "\<exists>us ms cs. select_room_users flt d code = Inr us \<and>
           select_room_messages flt d code = Inr ms \<and>
           select_call_history flt d code = Inr cs \<and>
           outs = [Emit (ToSocket sid)
                     (RoomJoined \<lparr>s_roomCode = code, s_userId = uid, s_users = map to_member us,
                        s_messages = ms, s_callHistory = cs\<rparr>),
                   Emit (ToOthers sid code) (UserJoined uid name (map to_member_brief us)),
                   Log (UserJoinedRoom name code)]"
  using assms by (auto simp: join_snapshot_def split: sum.splits)

text \<open>
  C8. A successful join, on a store whose user ids are distinct (the primary key): the
  first output is the snapshot to the joining connection. Its message list holds each
  message row of the room once, in ascending order of created_at; its member list holds
  each user row of the room once, online rows first and each group in ascending order of
  the username (bytewise, the order of the store); its call list holds the ten most recent
  call rows of the room, or all if there are fewer, most recent first.
\<close>

theorem join_snapshot_contents:
  assumes ok: "join_room_try flt sock code name fresh_rid fresh_uid now st = Inr (st', outs)"
    and pk: "distinct (map u_id (users (db st)))"
  shows "\<exists>snap others.
           outs = [Emit (ToSocket (sock_id sock)) (RoomJoined snap), others,
                   Log (UserJoinedRoom name code)] \<and>
           mset (map h_core (s_messages snap)) =
             mset (map m_core (filter (\<lambda>m. m_room_code m = code) (messages (db st')))) \<and>
           sorted_wrt (\<lambda>a b. h_created_at a \<le> h_created_at b) (s_messages snap) \<and>
           mset (s_users snap) =
             mset (map to_member (filter (\<lambda>u. u_room_code u = code) (users (db st')))) \<and>
           sorted_wrt (\<lambda>a b. mem_isOnline b < mem_isOnline a \<or>
                          mem_isOnline b = mem_isOnline a \<and> mem_username a \<le> mem_username b)
             (s_users snap) \<and>
           length (s_callHistory snap) =
             min 10 (length (filter (\<lambda>c. c_room_code c = code) (calls (db st')))) \<and>
           sorted_wrt (\<lambda>a b. c_started_at b \<le> c_started_at a) (s_callHistory snap) \<and>
           (\<exists>older.
              mset (s_callHistory snap) + mset older =
                mset (filter (\<lambda>c. c_room_code c = code) (calls (db st'))) \<and>
              (\<forall>c\<in>set (s_callHistory snap). \<forall>p\<in>set older. c_started_at p \<le> c_started_at c))"
proof -
  from join_room_try_InrD[OF ok] obtain d1 uid where
    u1: "users d1 = users (db st)"
    and ju: "join_user flt (sock_id sock) code name fresh_uid now d1 = Inr (db st', uid)"
    and js: "join_snapshot flt (sock_id sock) code uid name (db st') = Inr outs"
    by blast
  from join_user_distinct[OF ju] pk u1 have pk': "distinct (map u_id (users (db st')))" by simp
  from join_snapshot_InrD[OF js] obtain us ms cs where
    sel_us: "select_room_users flt (db st') code = Inr us"
    and sel_ms: "select_room_messages flt (db st') code = Inr ms"
    and sel_cs: "select_call_history flt (db st') code = Inr cs"
    and outs: "outs = [Emit (ToSocket (sock_id sock))
                     (RoomJoined \<lparr>s_roomCode = code, s_userId = uid, s_users = map to_member us,
                        s_messages = ms, s_callHistory = cs\<rparr>),
                   Emit (ToOthers (sock_id sock) code) (UserJoined uid name (map to_member_brief us)),
                   Log (UserJoinedRoom name code)]"
    by blast
  let ?snap = "\<lparr>s_roomCode = code, s_userId = uid, s_users = map to_member us,
                 s_messages = ms, s_callHistory = cs\<rparr>"
  note m = select_room_messages_history[OF sel_ms pk']
  note u = select_room_users_members[OF sel_us]
  note c = select_call_history_recent[OF sel_cs]
  show ?thesis
    apply (rule exI[of _ ?snap])
    apply (rule exI[of _ "Emit (ToOthers (sock_id sock) code) (UserJoined uid name (map to_member_brief us))"])
    using outs m u c by simp
qed

theorem join_snapshot_contents_witness:
  "map_option (\<lambda>s. (map h_message (s_messages s), map mem_username (s_users s),
                      map c_id (s_callHistory s)))
     (snapshot_of (snd (projr (join_room_try no_faults (new_conn ''s1'') ''abc123'' ''alice''
                                 ''r7'' ''u7'' 100 history_state))))
   = Some ([''earlier'', ''later''], [''alice'', ''bob'', ''zoe''], [2, 1])"
  using join_snapshot_contents
    [of no_faults "new_conn ''s1''" "''abc123''" "''alice''" "''r7''" "''u7''" 100 history_state
        "fst (projr (join_room_try no_faults (new_conn ''s1'') ''abc123'' ''alice''
                       ''r7'' ''u7'' 100 history_state))"
        "snd (projr (join_room_try no_faults (new_conn ''s1'') ''abc123'' ''alice''
                       ''r7'' ''u7'' 100 history_state))"]
  by (simp add: join_room_try_def join_room_body_def join_user_def join_snapshot_def
      select_room_def select_user_def insert_user_def
      select_room_users_def select_room_messages_def select_call_history_def
      left_join_users_def joined_row_def
      register_presence_def no_faults_def history_state_def new_conn_def demo_conn_def
      to_member_def to_member_brief_def less_eq_char_def less_char_def)

subsection \<open>What a step does to the store\<close>

lemma join_room_db_cases:
  obtains (same) "db (fst (join_room flt sock code name rid fresh now st)) = db st"
  | (room) "insert_room flt (db st) rid code now =
              Inr (db (fst (join_room flt sock code name rid fresh now st)))"
  | (user) d1 uid where "d1 = db st \<or> insert_room flt (db st) rid code now = Inr d1"
      "join_user flt (sock_id sock) code name fresh now d1 =
         Inr (db (fst (join_room flt sock code name rid fresh now st)), uid)"
proof (cases "select_room flt (db st) code")
  case (Inl e)
  then have "db (fst (join_room flt sock code name rid fresh now st)) = db st"
    by (simp add: join_room_def join_room_try_def join_catch_def)
  then show ?thesis by (rule same)
next
  case (Inr room)
  let ?ins = "case room of None \<Rightarrow> insert_room flt (db st) rid code now | Some r \<Rightarrow> Inr (db st)"
  show ?thesis
  proof (cases ?ins)
    case (Inl e)
    with Inr have "db (fst (join_room flt sock code name rid fresh now st)) = db st"
      by (simp add: join_room_def join_room_try_def join_catch_def join_room_body_def)
    then show ?thesis by (rule same)
  next
    case d1: (Inr d1)
    then have reach: "d1 = db st \<or> insert_room flt (db st) rid code now = Inr d1"
      by (cases room) simp_all
    show ?thesis
    proof (cases "join_user flt (sock_id sock) code name fresh now d1")
      case (Inl e)
      with Inr d1 have "db (fst (join_room flt sock code name rid fresh now st)) = d1"
        by (simp add: join_room_def join_room_try_def join_catch_def join_room_body_def)
      with reach show ?thesis using same room by auto
    next
      case ju: (Inr r)
      obtain d2 uid where r: "r = (d2, uid)" by (cases r)
      with Inr d1 ju have "db (fst (join_room flt sock code name rid fresh now st)) = d2"
        by (simp add: join_room_def join_room_try_def join_catch_def join_room_body_def Let_def
            split: sum.splits)
      with reach ju r show ?thesis using user by auto
    qed
  qed
qed

lemma send_message_db:
  "db (fst (send_message flt sock m t now dn st)) = db st \<or>
   (\<exists>code uid kind i. insert_message flt (db st) code uid (username sock) m kind now =
      Inr (db (fst (send_message flt sock m t now dn st)), i))"
proof (cases "presence_of sock")
  case None
  then show ?thesis by (simp add: send_message_def send_message_catch_def)
next
  case (Some p)
  obtain code uid where p: "p = (code, uid)" by (cases p)
  let ?kind = "case t of None \<Rightarrow> ''text'' | Some k \<Rightarrow> k"
  show ?thesis
  proof (cases "insert_message flt (db st) code uid (username sock) m ?kind now")
    case (Inl e)
    with Some p show ?thesis by (simp add: send_message_def send_message_catch_def)
  next
    case (Inr r)
    obtain d' i where r: "r = (d', i)" by (cases r)
    with Some p Inr have "db (fst (send_message flt sock m t now dn st)) = d'"
      by (simp add: send_message_def)
    with Inr r show ?thesis by auto
  qed
qed

lemma end_call_db:
  "db (fst (end_call flt sock now st)) = db st \<or>
   (\<exists>code. update_calls_ended flt (db st) code now = Inr (db (fst (end_call flt sock now st))))"
proof (cases "room_of sock")
  case None
  then show ?thesis by (simp add: end_call_def)
next
  case (Some code)
  show ?thesis
  proof (cases "update_calls_ended flt (db st) code now")
    case (Inl e)
    with Some show ?thesis by (simp add: end_call_def Let_def)
  next
    case (Inr d')
    with Some have "db (fst (end_call flt sock now st)) = d'"
      by (simp add: end_call_def Let_def)
    with Inr show ?thesis by auto
  qed
qed

lemma call_started_db:
  "db (fst (call_started flt sock ct now st)) = db st \<or>
   (\<exists>code. insert_call flt (db st) code ct (userId sock) (username sock) now =
      Inr (db (fst (call_started flt sock ct now st))))"
proof (cases "room_of sock")
  case None
  then show ?thesis by (simp add: call_started_def)
next
  case (Some code)
  show ?thesis
  proof (cases "insert_call flt (db st) code ct (userId sock) (username sock) now")
    case (Inl e)
    with Some show ?thesis by (simp add: call_started_def)
  next
    case (Inr d')
    with Some have "db (fst (call_started flt sock ct now st)) = d'"
      by (simp add: call_started_def)
    with Inr show ?thesis by auto
  qed
qed

lemma disconnect_db:
  "db (fst (disconnect flt sock now st)) = db st \<or>
   update_users_offline flt (db st) (sock_id sock) now = Inr (db (fst (disconnect flt sock now st)))"
proof (cases "presence_of sock")
  case None
  then show ?thesis by (simp add: disconnect_def)
next
  case (Some p)
  obtain code uid where p: "p = (code, uid)" by (cases p)
  show ?thesis
  proof (cases "update_users_offline flt (db st) (sock_id sock) now")
    case (Inl e)
    with Some p show ?thesis by (simp add: disconnect_def)
  next
    case (Inr d')
    with Some p have "db (fst (disconnect flt sock now st)) = d'"
      by (simp add: disconnect_def split: sum.splits)
    with Inr show ?thesis by simp
  qed
qed

lemma cleanup_db:
  "db (fst (cleanup flt now st)) = db st \<or>
   (\<exists>n. delete_inactive_users flt (db st) now = Inr (db (fst (cleanup flt now st)), n))"
proof (cases "delete_inactive_users flt (db st) now")
  case (Inl e)
  then show ?thesis by (simp add: cleanup_def)
next
  case (Inr r)
  obtain d' n where r: "r = (d', n)" by (cases r)
  with Inr have "db (fst (cleanup flt now st)) = d'" by (simp add: cleanup_def)
  with Inr r show ?thesis by auto
qed

text \<open>What one step can do to the store: nothing, or one of these writes.\<close>

lemma step_db_cases:
  fixes flt now ev st
  defines "d' \<equiv> db (fst (step flt now ev st))"
  obtains (same) "d' = db st"
  | (room) sid code name rid fresh where "ev = OnJoinRoom sid code name rid fresh"
      "insert_room flt (db st) rid code now = Inr d'"
  | (user) sid code name rid fresh d1 uid where "ev = OnJoinRoom sid code name rid fresh"
      "d1 = db st \<or> insert_room flt (db st) rid code now = Inr d1"
      "join_user flt sid code name fresh now d1 = Inr (d', uid)"
  | (message) code uid name body kind i where
      "insert_message flt (db st) code uid name body kind now = Inr (d', i)"
  | (ended) code where "update_calls_ended flt (db st) code now = Inr d'"
  | (call) code ct uid name where "insert_call flt (db st) code ct uid name now = Inr d'"
  | (offline) sid where "ev = OnDisconnect sid"
      "update_users_offline flt (db st) sid now = Inr d'"
  | (deleted) n where "ev = OnInterval" "delete_inactive_users flt (db st) now = Inr (d', n)"
proof (cases ev)
  case (OnConnection sid)
  then have "d' = db st" by (simp add: d'_def)
  then show ?thesis by (rule same)
next
  case ev: (OnJoinRoom sid code name rid fresh)
  show ?thesis
  proof (cases "find (\<lambda>c. sock_id c = sid) (sockets st)")
    case None
    with ev have "d' = db st" by (simp add: d'_def fst_with_socket)
    then show ?thesis by (rule same)
  next
    case (Some sock)
    then have sid: "sock_id sock = sid" by (auto dest: find_Some_iff[THEN iffD1])
    from ev Some have d': "d' = db (fst (join_room flt sock code name rid fresh now st))"
      by (simp add: d'_def fst_with_socket)
    show ?thesis
      using join_room_db_cases[of flt sock code name rid fresh now st] d' ev sid same room user
      by metis
  qed
next
  case ev: (OnSendMessage sid m t dn)
  show ?thesis
  proof (cases "find (\<lambda>c. sock_id c = sid) (sockets st)")
    case None
    with ev have "d' = db st" by (simp add: d'_def fst_with_socket)
    then show ?thesis by (rule same)
  next
    case (Some sock)
    with ev have "d' = db (fst (send_message flt sock m t now dn st))"
      by (simp add: d'_def fst_with_socket)
    with send_message_db[of flt sock m t now dn st] show ?thesis
      using same message by metis
  qed
next
  case ev: (OnEndCall sid)
  show ?thesis
  proof (cases "find (\<lambda>c. sock_id c = sid) (sockets st)")
    case None
    with ev have "d' = db st" by (simp add: d'_def fst_with_socket)
    then show ?thesis by (rule same)
  next
    case (Some sock)
    with ev have "d' = db (fst (end_call flt sock now st))"
      by (simp add: d'_def fst_with_socket)
    with end_call_db[of flt sock now st] show ?thesis
      using same ended by metis
  qed
next
  case ev: (OnCallStarted sid ct)
  show ?thesis
  proof (cases "find (\<lambda>c. sock_id c = sid) (sockets st)")
    case None
    with ev have "d' = db st" by (simp add: d'_def fst_with_socket)
    then show ?thesis by (rule same)
  next
    case (Some sock)
    with ev have "d' = db (fst (call_started flt sock ct now st))"
      by (simp add: d'_def fst_with_socket)
    with call_started_db[of flt sock ct now st] show ?thesis
      using same call by metis
  qed
next
  case ev: (OnDisconnect sid)
  show ?thesis
  proof (cases "find (\<lambda>c. sock_id c = sid) (sockets st)")
    case None
    with ev have "d' = db st" by (simp add: d'_def fst_with_socket)
    then show ?thesis by (rule same)
  next
    case (Some sock)
    then have sid: "sock_id sock = sid" by (auto dest: find_Some_iff[THEN iffD1])
    from ev Some have "d' = db (fst (disconnect flt sock now st))"
      by (simp add: d'_def fst_with_socket split: prod.splits)
    with disconnect_db[of flt sock now st] sid ev show ?thesis
      using same offline by metis
  qed
next
  case OnInterval
  then have "d' = db (fst (cleanup flt now st))" by (simp add: d'_def)
  with cleanup_db[of flt now st] OnInterval show ?thesis
    using same deleted by metis
qed (use same in \<open>simp_all add: d'_def fst_with_socket typing_start_def typing_stop_def
       offer_def answer_def ice_candidate_def ping_def split: option.splits\<close>)

subsection \<open>The constraints of the tables hold along every run\<close>

lemma le_fold_max: "(x::int) \<in> set xs \<Longrightarrow> x \<le> fold max xs a"
proof (induction xs arbitrary: a)
  case Nil
  then show ?case by simp
next
  case (Cons y ys)
  have mono: "a \<le> fold max ys a" for a :: int
    by (induction ys arbitrary: a) (auto intro: order_trans[OF max.cobounded2])
  show ?case
  proof (cases "x = y")
    case True
    have "y \<le> max y a" by simp
    also have "\<dots> \<le> fold max ys (max y a)" by (rule mono)
    finally show ?thesis using True by simp
  next
    case False
    with Cons show ?thesis by simp
  qed
qed

lemma next_rowid_new: "next_rowid seq ids \<notin> set ids"
proof
  assume "next_rowid seq ids \<in> set ids"
  from le_fold_max[OF this, of seq] show False by (simp add: next_rowid_def)
qed

lemma map_u_id_update:
  "map u_id (map (\<lambda>u. if P u then u\<lparr>u_socket_id := a, u_is_online := b, u_last_seen := c\<rparr> else u) us)
     = map u_id us"
  by (induction us) auto

lemma map_u_id_offline:
  "map u_id (map (\<lambda>u. if P u then u\<lparr>u_is_online := b, u_last_seen := c\<rparr> else u) us)
     = map u_id us"
  by (induction us) auto

lemma map_c_id_ended:
  "map c_id (map (\<lambda>c. if P c then c\<lparr>c_status := a, c_ended_at := b\<rparr> else c) cs) = map c_id cs"
  by (induction cs) auto

lemma insert_room_ok:
  "store_ok d \<Longrightarrow> insert_room flt d rid code now = Inr d' \<Longrightarrow> store_ok d'"
  by (auto simp: store_ok_def insert_room_def split: if_splits)

lemma join_user_ok:
  "store_ok d \<Longrightarrow> join_user flt sid code name fresh now d = Inr (d', uid) \<Longrightarrow> store_ok d'"
  by (auto simp: store_ok_def join_user_def select_user_def update_user_online_def
      insert_user_def map_u_id_update simp del: map_map
      split: sum.splits option.splits if_splits)

lemma insert_message_ok:
  "store_ok d \<Longrightarrow> insert_message flt d code uid name body kind now = Inr (d', i) \<Longrightarrow> store_ok d'"
  using next_rowid_new[of "messages_seq d" "map m_id (messages d)"]
  by (auto simp: store_ok_def insert_message_def Let_def split: if_splits)

lemma update_calls_ended_ok:
  "store_ok d \<Longrightarrow> update_calls_ended flt d code now = Inr d' \<Longrightarrow> store_ok d'"
  by (auto simp: store_ok_def update_calls_ended_def map_c_id_ended simp del: map_map
      split: if_splits)

lemma insert_call_ok:
  "store_ok d \<Longrightarrow> insert_call flt d code ct uid name now = Inr d' \<Longrightarrow> store_ok d'"
  using next_rowid_new[of "calls_seq d" "map c_id (calls d)"]
  by (auto simp: store_ok_def insert_call_def Let_def split: if_splits)

lemma update_users_offline_ok:
  "store_ok d \<Longrightarrow> update_users_offline flt d sid now = Inr d' \<Longrightarrow> store_ok d'"
  by (auto simp: store_ok_def update_users_offline_def map_u_id_offline simp del: map_map
      split: if_splits)

lemma delete_inactive_users_ok:
  "store_ok d \<Longrightarrow> delete_inactive_users flt d now = Inr (d', n) \<Longrightarrow> store_ok d'"
  by (auto simp: store_ok_def delete_inactive_users_def distinct_map_filter split: if_splits)

lemma step_store_ok:
  assumes "store_ok (db st)"
  shows "store_ok (db (fst (step flt now ev st)))"
proof (cases rule: step_db_cases[of flt now ev st])
  case same
  with assms show ?thesis by simp
next
  case (room sid code name rid fresh)
  with assms show ?thesis by (auto dest: insert_room_ok)
next
  case (user sid code name rid fresh d1 uid)
  with assms have "store_ok d1" by (auto dest: insert_room_ok)
  with user show ?thesis by (auto dest: join_user_ok)
next
  case (message code uid name body kind i)
  with assms show ?thesis by (auto dest: insert_message_ok)
next
  case (ended code)
  with assms show ?thesis by (auto dest: update_calls_ended_ok)
next
  case (call code ct uid name)
  with assms show ?thesis by (auto dest: insert_call_ok)
next
  case (offline sid)
  with assms show ?thesis by (auto dest: update_users_offline_ok)
next
  case (deleted n)
  with assms show ?thesis by (auto dest: delete_inactive_users_ok)
qed

lemma run_store_ok:
  "store_ok (db st) \<Longrightarrow> s \<in> set (run evs st) \<Longrightarrow> store_ok (db s)"
proof (induction evs arbitrary: st)
  case Nil
  then show ?case by simp
next
  case (Cons ev evs)
  obtain flt now i where ev: "ev = (flt, now, i)" by (cases ev)
  with Cons.prems have "s = st \<or> s \<in> set (run evs (fst (step flt now i st)))" by simp
  then show ?case
  proof
    assume "s = st"
    with Cons.prems show ?thesis by simp
  next
    assume "s \<in> set (run evs (fst (step flt now i st)))"
    with Cons.IH[OF step_store_ok[OF Cons.prems(1)]] show ?thesis by blast
  qed
qed

lemma store_ok_empty: "store_ok empty_store"
  by (simp add: store_ok_def empty_store_def)

subsection \<open>Rows that stay\<close>

lemma run_nonempty: "run evs st \<noteq> []"
  by (cases evs) auto

lemma last_run_Cons:
  "last (run ((flt, now, i) # evs) st) = last (run evs (fst (step flt now i st)))"
  by (simp add: run_nonempty)

lemma map_u_key_update:
  "map u_key (map (\<lambda>u. if P u then u\<lparr>u_socket_id := a, u_is_online := b, u_last_seen := c\<rparr> else u) us)
     = map u_key us"
  by (induction us) (auto simp: u_key_def)

lemma map_u_key_offline:
  "map u_key (map (\<lambda>u. if P u then u\<lparr>u_is_online := b, u_last_seen := c\<rparr> else u) us)
     = map u_key us"
  by (induction us) (auto simp: u_key_def)

lemma key_ids:
  assumes "map u_key xs = map u_key ys @ ks"
  shows "map u_id xs = map u_id ys @ map fst ks"
proof -
  have ids: "map fst (map u_key us) = map u_id us" for us
    by (simp add: u_key_def comp_def)
  from assms have "map fst (map u_key xs) = map fst (map u_key ys @ ks)" by (rule arg_cong)
  then show ?thesis by (simp only: ids map_append)
qed

lemma insert_room_same:
  "insert_room flt d rid code now = Inr d' \<Longrightarrow> users d' = users d \<and> messages d' = messages d"
  by (auto simp: insert_room_def split: if_splits)

lemma join_user_keys:
  assumes "join_user flt sid code name fresh now d = Inr (d', uid)"
  shows "messages d' = messages d \<and>
         (map u_key (users d') = map u_key (users d) \<or>
          map u_key (users d') = map u_key (users d) @ [(fresh, code, name)])"
proof (cases "find (\<lambda>u. u_room_code u = code \<and> u_username u = name) (users d)")
  case None
  with assms show ?thesis
    by (auto simp: join_user_def select_user_def insert_user_def u_key_def split: if_splits)
next
  case (Some ex)
  with assms have "users d' = map (\<lambda>u. if u_id u = u_id ex
       then u\<lparr>u_socket_id := sid, u_is_online := 1, u_last_seen := now\<rparr> else u) (users d)"
    and "messages d' = messages d"
    by (auto simp: join_user_def select_user_def update_user_online_def split: if_splits)
  then show ?thesis by (simp add: map_u_key_update del: map_map)
qed

lemma insert_message_same:
  "insert_message flt d code uid name body kind now = Inr (d', i) \<Longrightarrow>
     users d' = users d \<and> set (messages d) \<subseteq> set (messages d')"
  by (auto simp: insert_message_def Let_def split: if_splits)

lemma update_calls_ended_same:
  "update_calls_ended flt d code now = Inr d' \<Longrightarrow> users d' = users d \<and> messages d' = messages d"
  by (auto simp: update_calls_ended_def split: if_splits)

lemma insert_call_same:
  "insert_call flt d code ct uid name now = Inr d' \<Longrightarrow> users d' = users d \<and> messages d' = messages d"
  by (auto simp: insert_call_def Let_def split: if_splits)

lemma update_users_offline_same:
  assumes "update_users_offline flt d sid now = Inr d'"
  shows "messages d' = messages d \<and> map u_key (users d') = map u_key (users d)"
proof -
  from assms have "users d' = map (\<lambda>u. if u_socket_id u = sid
       then u\<lparr>u_is_online := 0, u_last_seen := now\<rparr> else u) (users d)"
    and "messages d' = messages d"
    by (auto simp: update_users_offline_def split: if_splits)
  then show ?thesis by (simp add: map_u_key_offline del: map_map)
qed

lemma delete_inactive_users_same:
  "delete_inactive_users flt d now = Inr (d', n) \<Longrightarrow>
     messages d' = messages d \<and> set (users d') \<subseteq> set (users d)"
  by (auto simp: delete_inactive_users_def split: if_splits)

lemma step_messages_kept:
  assumes "m \<in> set (messages (db st))"
  shows "m \<in> set (messages (db (fst (step flt now ev st))))"
proof (cases rule: step_db_cases[of flt now ev st])
  case same
  with assms show ?thesis by simp
next
  case (room sid code name rid fresh)
  from insert_room_same[OF room(2)] assms show ?thesis by simp
next
  case (user sid code name rid fresh d1 uid)
  from user(2) assms have "m \<in> set (messages d1)" by (auto dest: insert_room_same)
  with join_user_keys[OF user(3)] show ?thesis by simp
next
  case (message code uid name body kind i)
  from insert_message_same[OF message] assms show ?thesis by blast
next
  case (ended code)
  from update_calls_ended_same[OF ended] assms show ?thesis by simp
next
  case (call code ct uid name)
  from insert_call_same[OF call] assms show ?thesis by simp
next
  case (offline sid)
  from update_users_offline_same[OF offline(2)] assms show ?thesis by simp
next
  case (deleted n)
  from delete_inactive_users_same[OF deleted(2)] assms show ?thesis by simp
qed

lemma run_messages_kept:
  "m \<in> set (messages (db st)) \<Longrightarrow> m \<in> set (messages (db (last (run evs st))))"
proof (induction evs arbitrary: st)
  case Nil
  then show ?case by simp
next
  case (Cons ev evs)
  obtain flt now i where ev: "ev = (flt, now, i)" by (cases ev)
  from Cons.IH[OF step_messages_kept[OF Cons.prems, of flt now i]] show ?case
    unfolding ev last_run_Cons .
qed

lemma step_user_ids:
  assumes "x \<notin> set (map u_id (users (db st)))" and "drawn_uid ev \<noteq> Some x"
  shows "x \<notin> set (map u_id (users (db (fst (step flt now ev st)))))"
proof (cases rule: step_db_cases[of flt now ev st])
  case same
  with assms show ?thesis by simp
next
  case (room sid code name rid fresh)
  from insert_room_same[OF room(2)] assms show ?thesis by simp
next
  case (user sid code name rid fresh d1 uid)
  from user(2) assms have d1: "x \<notin> set (map u_id (users d1))" by (auto dest: insert_room_same)
  from user(1) assms have "fresh \<noteq> x" by simp
  moreover from join_user_keys[OF user(3)]
  have "map u_id (users (db (fst (step flt now ev st)))) = map u_id (users d1) \<or>
        map u_id (users (db (fst (step flt now ev st)))) = map u_id (users d1) @ [fresh]"
    using key_ids[of "users (db (fst (step flt now ev st)))" "users d1" "[]"]
      key_ids[of "users (db (fst (step flt now ev st)))" "users d1" "[(fresh, code, name)]"]
    by auto
  then have "set (map u_id (users (db (fst (step flt now ev st))))) \<subseteq>
        insert fresh (set (map u_id (users d1)))"
    by (metis equalityE insert_is_Un set_append list.set(1) list.set(2) subset_insertI sup_commute)
  ultimately show ?thesis using d1 by blast
next
  case (message code uid name body kind i)
  from insert_message_same[OF message] assms show ?thesis by simp
next
  case (ended code)
  from update_calls_ended_same[OF ended] assms show ?thesis by simp
next
  case (call code ct uid name)
  from insert_call_same[OF call] assms show ?thesis by simp
next
  case (offline sid)
  from update_users_offline_same[OF offline(2)]
  have "map u_id (users (db (fst (step flt now ev st)))) = map u_id (users (db st))"
    using key_ids[of "users (db (fst (step flt now ev st)))" "users (db st)" "[]"] by simp
  with assms(1) show ?thesis by metis
next
  case (deleted n)
  from delete_inactive_users_same[OF deleted(2)] assms show ?thesis by auto
qed

lemma run_user_ids:
  "x \<notin> set (map u_id (users (db st))) \<Longrightarrow>
   Some x \<notin> set (map (\<lambda>e. drawn_uid (snd (snd e))) evs) \<Longrightarrow>
   x \<notin> set (map u_id (users (db (last (run evs st)))))"
proof (induction evs arbitrary: st)
  case Nil
  then show ?case by simp
next
  case (Cons ev evs)
  obtain flt now i where ev: "ev = (flt, now, i)" by (cases ev)
  with Cons.prems have "drawn_uid i \<noteq> Some x"
    and rest: "Some x \<notin> set (map (\<lambda>e. drawn_uid (snd (snd e))) evs)" by auto
  from step_user_ids[OF Cons.prems(1) this(1), of flt now]
  have "x \<notin> set (map u_id (users (db (fst (step flt now i st)))))" .
  from Cons.IH[OF this rest] show ?case
    unfolding ev last_run_Cons .
qed



subsection \<open>The connections along every run\<close>

lemma join_room_sockets:
  "sockets (fst (join_room flt sock code name rid fresh now st)) = sockets st \<or>
   (\<exists>uid. sockets (fst (join_room flt sock code name rid fresh now st)) =
      register_presence (sock_id sock) code uid name (sockets st))"
proof (cases "select_room flt (db st) code")
  case (Inl e)
  then show ?thesis by (simp add: join_room_def join_room_try_def join_catch_def)
next
  case (Inr room)
  let ?ins = "case room of None \<Rightarrow> insert_room flt (db st) rid code now | Some r \<Rightarrow> Inr (db st)"
  show ?thesis
  proof (cases ?ins)
    case (Inl e)
    with Inr show ?thesis
      by (simp add: join_room_def join_room_try_def join_catch_def join_room_body_def)
  next
    case d1: (Inr d1)
    show ?thesis
    proof (cases "join_user flt (sock_id sock) code name fresh now d1")
      case (Inl e)
      with Inr d1 show ?thesis
        by (simp add: join_room_def join_room_try_def join_catch_def join_room_body_def)
    next
      case ju: (Inr r)
      obtain d2 uid where r: "r = (d2, uid)" by (cases r)
      with Inr d1 ju have "sockets (fst (join_room flt sock code name rid fresh now st)) =
          register_presence (sock_id sock) code uid name (sockets st)"
        by (simp add: join_room_def join_room_try_def join_catch_def join_room_body_def Let_def
            split: sum.splits)
      then show ?thesis by blast
    qed
  qed
qed

lemma register_presence_ok:
  assumes "sockets st' = register_presence sid code uid name (sockets st)" and "conns_ok st"
  shows "conns_ok st'"
proof -
  have ids: "map sock_id (register_presence sid code uid name cs) = map sock_id cs" for cs
    by (induction cs) (auto simp: register_presence_def)
  have rooms: "list_all (\<lambda>c. case roomCode c of None \<Rightarrow> True | Some code \<Rightarrow> code \<in> set (joined c)) cs
       \<Longrightarrow> list_all (\<lambda>c. case roomCode c of None \<Rightarrow> True | Some code \<Rightarrow> code \<in> set (joined c))
             (register_presence sid code uid name cs)" for cs
    by (induction cs) (auto simp: register_presence_def)
  from assms show ?thesis by (simp add: conns_ok_def ids rooms)
qed

lemma step_conns_ok:
  assumes "conns_ok st"
  shows "conns_ok (fst (step flt now ev st))"
proof (cases ev)
  case (OnConnection sid)
  with assms show ?thesis by (auto simp: conns_ok_def new_conn_def)
next
  case ev: (OnJoinRoom sid code name rid fresh)
  show ?thesis
  proof (cases "find (\<lambda>c. sock_id c = sid) (sockets st)")
    case None
    with ev assms show ?thesis by (simp add: fst_with_socket)
  next
    case (Some sock)
    let ?st' = "fst (join_room flt sock code name rid fresh now st)"
    from join_room_sockets[of flt sock code name rid fresh now st]
    have "conns_ok ?st'"
    proof
      assume "sockets ?st' = sockets st"
      with assms show ?thesis by (simp add: conns_ok_def)
    next
      assume "\<exists>uid. sockets ?st' = register_presence (sock_id sock) code uid name (sockets st)"
      then obtain uid where
        "sockets ?st' = register_presence (sock_id sock) code uid name (sockets st)" by blast
      from register_presence_ok[OF this assms] show ?thesis .
    qed
    with ev Some show ?thesis by (simp add: fst_with_socket)
  qed
next
  case ev: (OnSendMessage sid m t dn)
  have "sockets (fst (send_message flt sock m t now dn st)) = sockets st" for sock
    by (simp add: send_message_def send_message_catch_def Let_def
        split: option.splits sum.splits prod.splits)
  with ev assms show ?thesis by (simp add: fst_with_socket conns_ok_def split: option.splits)
next
  case ev: (OnEndCall sid)
  have "sockets (fst (end_call flt sock now st)) = sockets st" for sock
    by (simp add: end_call_def Let_def split: option.splits sum.splits)
  with ev assms show ?thesis by (simp add: fst_with_socket conns_ok_def split: option.splits)
next
  case ev: (OnCallStarted sid ct)
  have "sockets (fst (call_started flt sock ct now st)) = sockets st" for sock
    by (simp add: call_started_def split: option.splits sum.splits)
  with ev assms show ?thesis by (simp add: fst_with_socket conns_ok_def split: option.splits)
next
  case ev: (OnDisconnect sid)
  have "sockets (fst (disconnect flt sock now st)) = sockets st" for sock
    by (simp add: disconnect_def split: option.splits sum.splits prod.splits)
  with ev assms show ?thesis
    by (simp add: fst_with_socket conns_ok_def distinct_map_filter list_all_iff case_prod_beta
        split: option.splits)
next
  case OnInterval
  have "sockets (fst (cleanup flt now st)) = sockets st"
    by (simp add: cleanup_def split: sum.splits prod.splits)
  with OnInterval assms show ?thesis by (simp add: conns_ok_def)
qed (use assms in \<open>simp_all add: fst_with_socket conns_ok_def typing_start_def typing_stop_def
       offer_def answer_def ice_candidate_def ping_def split: option.splits\<close>)

lemma run_conns_ok:
  "conns_ok st \<Longrightarrow> s \<in> set (run evs st) \<Longrightarrow> conns_ok s"
proof (induction evs arbitrary: st)
  case Nil
  then show ?case by simp
next
  case (Cons ev evs)
  obtain flt now i where ev: "ev = (flt, now, i)" by (cases ev)
  with Cons.prems have "s = st \<or> s \<in> set (run evs (fst (step flt now i st)))" by simp
  then show ?case
  proof
    assume "s = st"
    with Cons.prems show ?thesis by simp
  next
    assume "s \<in> set (run evs (fst (step flt now i st)))"
    with Cons.IH[OF step_conns_ok[OF Cons.prems(1)]] show ?thesis by blast
  qed
qed

subsection \<open>Joining again\<close>





subsection \<open>History of a deleted user\<close>

lemma left_join_no_user:
  "m_user_id m \<notin> set (map u_id us) \<Longrightarrow> left_join_users us m = [joined_row m None]"
proof -
  assume "m_user_id m \<notin> set (map u_id us)"
  then have "filter (\<lambda>u. m_user_id m = u_id u) us = []"
    by (auto simp: filter_empty_conv)
  then show ?thesis by (simp add: left_join_users_def)
qed

lemma select_room_messages_no_user:
  assumes "select_room_messages flt d code = Inr ms"
    and "m \<in> set (messages d)" and "m_room_code m = code"
    and "m_user_id m \<notin> set (map u_id (users d))"
  shows "joined_row m None \<in> set ms"
proof -
  from assms(1) have ms: "ms = sort_key h_created_at
      (concat (map (left_join_users (users d)) (filter (\<lambda>m. m_room_code m = code) (messages d))))"
    by (simp add: select_room_messages_def split: if_splits)
  from assms(2,3) have "m \<in> set (filter (\<lambda>m. m_room_code m = code) (messages d))" by simp
  moreover have "joined_row m None \<in> set (left_join_users (users d) m)"
    by (simp add: left_join_no_user[OF assms(4)])
  ultimately show ?thesis unfolding ms by auto
qed

lemma delete_removes_id:
  assumes "delete_inactive_users flt d now = Inr (d', n)"
    and "distinct (map u_id (users d))"
    and "u \<in> set (users d)" and "inactive now u"
  shows "u_id u \<notin> set (map u_id (users d'))"
proof
  assume "u_id u \<in> set (map u_id (users d'))"
  then obtain v where v: "v \<in> set (users d')" "u_id v = u_id u" by auto
  from assms(1) have d': "users d' = filter (\<lambda>u. \<not> inactive now u) (users d)"
    by (auto simp: delete_inactive_users_def split: if_splits)
  with v have "v \<in> set (users d)" "\<not> inactive now v" by auto
  with assms(2,3) v(2) have "v = u" by (auto simp: distinct_map inj_on_def)
  with \<open>\<not> inactive now v\<close> assms(4) show False by simp
qed

text \<open>
  C10. A message whose author's user row is deleted by a run of the cleanup (the row is
  offline and last seen more than an hour before; user ids are distinct, the primary
  key): in the snapshot of every later successful join to the room, after any further
  events, the message is there with username null, whatever username the message row
  itself stores, as long as no join draws the deleted id again from \<^verbatim>\<open>uuidv4()\<close>.
\<close>

theorem swept_author_gets_null_username:
  assumes pk: "distinct (map u_id (users (db st)))"
    and msg: "m \<in> set (messages (db st))" "m_room_code m = code"
    and author: "u \<in> set (users (db st))" "u_id u = m_user_id m"
    and stale: "u_is_online u = 0" "u_last_seen u < now - 3600"
    and swept: "\<not> flt DelUsers"
    and later: "Some (m_user_id m) \<notin> set (map (\<lambda>e. drawn_uid (snd (snd e))) evs)"
    and fresh: "fresh_uid \<noteq> m_user_id m"
    and joined: "join_room_try flt' sock code name fresh_rid fresh_uid now'
                   (last (run evs (fst (cleanup flt now st)))) = Inr (st', outs)"
  shows "\<exists>snap. snapshot_of outs = Some snap \<and>
           joined_row m None \<in> set (s_messages snap) \<and>
           h_username (joined_row m None) = None \<and>
           h_message (joined_row m None) = m_message m"
proof -
  let ?st1 = "fst (cleanup flt now st)"
  let ?st2 = "last (run evs ?st1)"
  from swept obtain n where del: "delete_inactive_users flt (db st) now = Inr (db ?st1, n)"
    by (simp add: cleanup_def delete_inactive_users_def)
  from stale have "inactive now u" by (simp add: inactive_def)
  from delete_removes_id[OF del pk author(1) this] author(2)
  have gone1: "m_user_id m \<notin> set (map u_id (users (db ?st1)))" by simp
  from delete_inactive_users_same[OF del] msg(1) have m1: "m \<in> set (messages (db ?st1))" by simp
  from run_user_ids[OF gone1 later] have gone2: "m_user_id m \<notin> set (map u_id (users (db ?st2)))" .
  from run_messages_kept[OF m1] have m2: "m \<in> set (messages (db ?st2))" .
  from join_room_try_InrD[OF joined] obtain d1 uid where
    d1: "users d1 = users (db ?st2)" "messages d1 = messages (db ?st2)"
    and ju: "join_user flt' (sock_id sock) code name fresh_uid now' d1 = Inr (db st', uid)"
    and js: "join_snapshot flt' (sock_id sock) code uid name (db st') = Inr outs"
    by blast
  from join_user_keys[OF ju] d1 m2 have m3: "m \<in> set (messages (db st'))" by simp
  from join_user_keys[OF ju]
  have "map u_id (users (db st')) = map u_id (users d1) \<or>
        map u_id (users (db st')) = map u_id (users d1) @ [fresh_uid]"
    using key_ids[of "users (db st')" "users d1" "[]"]
      key_ids[of "users (db st')" "users d1" "[(fresh_uid, code, name)]"]
    by auto
  then have "set (map u_id (users (db st'))) \<subseteq> insert fresh_uid (set (map u_id (users d1)))"
    by (metis equalityE insert_is_Un set_append list.set(1) list.set(2) subset_insertI sup_commute)
  with gone2 d1(1) fresh have gone3: "m_user_id m \<notin> set (map u_id (users (db st')))" by auto
  from js obtain us ms cs where
    sel: "select_room_messages flt' (db st') code = Inr ms"
    and outs: "outs = [Emit (ToSocket (sock_id sock))
                     (RoomJoined \<lparr>s_roomCode = code, s_userId = uid, s_users = map to_member us,
                        s_messages = ms, s_callHistory = cs\<rparr>),
                   Emit (ToOthers (sock_id sock) code) (UserJoined uid name (map to_member_brief us)),
                   Log (UserJoinedRoom name code)]"
    by (auto simp: join_snapshot_def split: sum.splits)
  from select_room_messages_no_user[OF sel m3 msg(2) gone3] outs show ?thesis
    by (simp add: joined_row_def)
qed

theorem swept_author_gets_null_username_witness:
  "map u_username (users (db (fst (cleanup no_faults 10000 before_sweep)))) = [''bob''] \<and>
   map_option (\<lambda>s. map (\<lambda>h. (h_message h, h_username h)) (s_messages s))
     (snapshot_of (snd (projr (join_room_try no_faults (new_conn ''s1'') ''abc123'' ''alice''
        ''r7'' ''u7'' 10002
        (last (run [(no_faults, 10001, OnPing ''s2'')]
           (fst (cleanup no_faults 10000 before_sweep))))))))
   = Some [(''earlier'', None), (''later'', Some ''bob'')]"
  using swept_author_gets_null_username
    [of before_sweep
        "\<lparr>m_id = 2, m_room_code = ''abc123'', m_user_id = ''u9'',
          m_username = Some ''dan'', m_message = ''earlier'', m_message_type = ''text'',
          m_created_at = 40\<rparr>"
        "''abc123''"
        "\<lparr>u_id = ''u9'', u_room_code = ''abc123'', u_username = ''dan'', u_socket_id = ''s9'',
          u_joined_at = 10, u_is_online = 0, u_last_seen = 60\<rparr>"
        10000 no_faults "[(no_faults, 10001, OnPing ''s2'')]" "''u7''"
        no_faults "new_conn ''s1''" "''alice''" "''r7''" 10002
        "fst (projr (join_room_try no_faults (new_conn ''s1'') ''abc123'' ''alice''
           ''r7'' ''u7'' 10002
           (last (run [(no_faults, 10001, OnPing ''s2'')]
              (fst (cleanup no_faults 10000 before_sweep))))))"
        "snd (projr (join_room_try no_faults (new_conn ''s1'') ''abc123'' ''alice''
           ''r7'' ''u7'' 10002
           (last (run [(no_faults, 10001, OnPing ''s2'')]
              (fst (cleanup no_faults 10000 before_sweep))))))"]
  by (simp add: join_room_try_def join_room_body_def join_user_def join_snapshot_def
      select_room_def select_user_def insert_user_def
      select_room_users_def select_room_messages_def select_call_history_def
      left_join_users_def joined_row_def cleanup_def delete_inactive_users_def inactive_def
      register_presence_def no_faults_def history_state_def before_sweep_def new_conn_def
      demo_conn_def to_member_def to_member_brief_def with_socket_def ping_def
      less_eq_char_def less_char_def)

end
